theory Spec2Isabelle
  imports Complex_Main "HOL-Library.Log_Nat"
begin

section \<open>Numbers and objects of the source language\<close>

text \<open>
  The engine is TypeScript. Its numbers are modelled as real numbers and its arithmetic as
  exact, except where a property depends on an equality that rounding can break: those
  computations take the rounding as a parameter (section Rounding). The non-finite values
  (NaN, the infinities) are outside the model. The source guards its quotients (\<open>x > 0 ? y / x : 0\<close>, \<open>y / (x || d)\<close>) with
  three exceptions: the comparison in the flow closure, modelled by \<open>div_gt\<close>; the
  volumetric flow, a quotient by the density of a stream; and the mixing of material
  streams. No property below reads a volumetric flow or a mixed value.

  An object used as a dictionary from component ids to numbers is an association list in
  insertion order with pairwise different keys; \<open>obj_get\<close> reads a property (\<open>None\<close> is
  \<open>undefined\<close>) and \<open>obj_set\<close> assigns one (in place if the key exists, at the end otherwise).
\<close>

type_synonym 'v obj = "(string \<times> 'v) list"

definition obj_get :: "'v obj \<Rightarrow> string \<Rightarrow> 'v option" where
  "obj_get m k = map_of m k"

primrec obj_set :: "string \<Rightarrow> 'v \<Rightarrow> 'v obj \<Rightarrow> 'v obj" where
  "obj_set k v [] = [(k, v)]"
| "obj_set k v (p # ps) = (if fst p = k then (k, v) # ps else p # obj_set k v ps)"

text \<open>The spread \<open>{...a, ...b}\<close>: the properties of \<open>a\<close>, then those of \<open>b\<close> assigned over them.\<close>

definition obj_spread :: "'v obj \<Rightarrow> 'v obj \<Rightarrow> 'v obj" where
  "obj_spread a b = foldl (\<lambda>m kv. obj_set (fst kv) (snd kv) m) a b"

text \<open>\<open>x || d\<close> on a number: \<open>0\<close> is falsy. On a property that may be absent, \<open>undefined\<close> is falsy too.\<close>

definition jsor :: "real \<Rightarrow> real \<Rightarrow> real" where
  "jsor x d = (if x = 0 then d else x)"

definition jsor_opt :: "real option \<Rightarrow> real \<Rightarrow> real" where
  "jsor_opt x d = (case x of None \<Rightarrow> d | Some v \<Rightarrow> jsor v d)"

text \<open>An optional string is truthy when it is present and not empty.\<close>

definition truthy_str :: "string option \<Rightarrow> bool" where
  "truthy_str s = (case s of None \<Rightarrow> False | Some t \<Rightarrow> t \<noteq> [])"

text \<open>\<open>xs[i]\<close> on an array: \<open>undefined\<close> out of range.\<close>

definition index_at :: "'a list \<Rightarrow> nat \<Rightarrow> 'a option" where
  "index_at xs i = (if i < length xs then Some (xs ! i) else None)"

text \<open>\<open>xs.findIndex(p)\<close>: the first index whose element satisfies \<open>p\<close>; \<open>None\<close> stands for \<open>-1\<close>.\<close>

primrec findIndex :: "('a \<Rightarrow> bool) \<Rightarrow> 'a list \<Rightarrow> nat option" where
  "findIndex p [] = None"
| "findIndex p (x # xs) = (if p x then Some 0 else map_option Suc (findIndex p xs))"

text \<open>\<open>Math.max(...xs)\<close> is \<open>-Infinity\<close> on no arguments.\<close>

datatype jsnum = NegInfinity | Num real

definition math_max :: "real list \<Rightarrow> jsnum" where
  "math_max xs = (case xs of [] \<Rightarrow> NegInfinity | y # ys \<Rightarrow> Num (foldl max y ys))"

section \<open>Rounding\<close>

text \<open>
  The numbers of the engine are IEEE 754 binary64 values: every arithmetic operation
  returns the exact result rounded to the nearest such value, a tie going to the even
  significand. \<open>binary64\<close> is that rounding on the real numbers: 53 bits of significand,
  and the fixed spacing \<open>2^-1074\<close> of the subnormal numbers below \<open>2^-1022\<close>. Overflow (a
  result of magnitude \<open>2^1024\<close> and above becomes an infinity) is outside the model.
  \<open>binade x\<close> is the exponent \<open>e\<close> with \<open>2^e \<le> x < 2^(e+1)\<close> of a positive \<open>x\<close>, found from
  the number of binary digits of its integer part (or of the integer part of \<open>1 / x\<close>).
  \<open>exact\<close> is no rounding at all.
\<close>

definition exact :: "real \<Rightarrow> real" where
  "exact x = x"

definition pow2 :: "int \<Rightarrow> real" where
  "pow2 e = (if 0 \<le> e then 2 ^ nat e else 1 / 2 ^ nat (- e))"

definition binade :: "real \<Rightarrow> int" where
  "binade x = (if 1 \<le> x then bitlen \<lfloor>x\<rfloor> - 1 else - bitlen (\<lceil>1 / x\<rceil> - 1))"

definition round_even :: "real \<Rightarrow> int" where
  "round_even y =
     (let f = \<lfloor>y\<rfloor>; d = y - of_int f
      in if d < 1 / 2 then f else if 1 / 2 < d then f + 1 else if even f then f else f + 1)"

definition binary64 :: "real \<Rightarrow> real" where
  "binary64 x =
     (if x = 0 then 0
      else (let q = pow2 (max (binade \<bar>x\<bar>) (- 1022) - 52)
            in sgn x * (of_int (round_even (\<bar>x\<bar> / q)) * q)))"

text \<open>
  Two computations of the engine are written over a rounding \<open>fl\<close>, applied to the result of
  each operation, so that they can be read in exact arithmetic and in the arithmetic of the
  engine. \<open>share\<close> is the division of a total among \<open>n\<close> streams
  (\<open>totalInputMass / activeOutputs.length\<close>; the length is a whole number and is not
  rounded). \<open>flotation_split\<close> is the pair of lines of the flotation branch that compute
  the concentrate and the tailing mass of a component:
  \<open>concentrate = inputMass * (componentRecovery / 100)\<close>,
  \<open>tailing = inputMass - concentrate\<close>.
\<close>

definition share :: "(real \<Rightarrow> real) \<Rightarrow> real \<Rightarrow> nat \<Rightarrow> real" where
  "share fl amount n = fl (amount / real n)"

definition flotation_split :: "(real \<Rightarrow> real) \<Rightarrow> real \<Rightarrow> real \<Rightarrow> real \<times> real" where
  "flotation_split fl inputMass recovery' =
     (let concentrate = fl (inputMass * fl (recovery' / 100))
      in (concentrate, fl (inputMass - concentrate)))"

text \<open>\<open>xs.reduce((sum, x) => sum + x, 0)\<close> with each addition rounded.\<close>

definition sum_rounded :: "(real \<Rightarrow> real) \<Rightarrow> real list \<Rightarrow> real" where
  "sum_rounded fl xs = foldl (\<lambda>sum x. fl (sum + x)) 0 xs"

section \<open>Data model\<close>

record MineralComponent =
  id_mc :: string
  symbol :: string
  defaultGrade :: real
  isActive :: bool

text \<open>
  \<open>EquipmentParameters\<close>: only the fields the balance reads. A numeric parameter that is
  not configured is \<open>0\<close> (the code reads each of them through \<open>||\<close>, which treats \<open>0\<close> and
  \<open>undefined\<close> alike); \<open>splits\<close> may be absent; \<open>recoveries\<close> holds
  \<open>parameters.components[id].recovery\<close> for the components that have an entry.
\<close>

record EquipmentParameters =
  numberOfOutputs :: real
  splits :: "real list option"
  recovery :: real
  recoveries :: "real obj"
  targetSize :: real

record Equipment =
  id_eq :: string
  type_eq :: string
  parameters :: EquipmentParameters

text \<open>
  \<open>FlowLine\<close>: \<open>fromEquipment\<close> absent marks a feed stream, \<open>toEquipment\<close> absent a product
  stream. The fields the code tests for presence are optional here.
\<close>

record FlowLine =
  id_fl :: string
  fromEquipment :: "string option"
  toEquipment :: "string option"
  flowRate_fl :: real
  solidPercent_fl :: real
  density_fl :: real
  particleSize_fl :: "real option"
  components :: "string list option"
  componentGrades :: "real obj option"
  mineralContent_fl :: "real obj option"

record DetailedStream =
  flowRate :: real
  solidPercent :: real
  density :: real
  particleSize :: real
  mineralContent :: "real obj"
  volumetricFlow :: real
  componentMass :: "real obj"
  componentPercentages :: "real obj"
  waterFlow :: real
  solidFlow :: real

record MaterialStream =
  flowRate_ms :: real
  solidPercent_ms :: real
  density_ms :: real
  particleSize_ms :: real
  mineralContent_ms :: "real obj"
  waterFlow_ms :: "real option"
  solidFlow_ms :: "real option"
  components_ms :: "real obj option"

section \<open>Conversion of a flow line\<close>

text \<open>\<open>convertToDetailedStream\<close>; the loop over the active components is \<open>convert_comp\<close>.\<close>

definition convert_comp ::
  "FlowLine \<Rightarrow> real \<Rightarrow> MineralComponent \<Rightarrow> real obj \<times> real obj \<Rightarrow> real obj \<times> real obj" where
  "convert_comp flowLine solidFlow' component acc =
     (let grade = jsor_opt (case componentGrades flowLine of None \<Rightarrow> None
                            | Some g \<Rightarrow> obj_get g (id_mc component)) 0;
          mass = solidFlow' * (grade / 100)
      in (obj_set (id_mc component) mass (fst acc),
          obj_set (id_mc component)
            (if flowRate_fl flowLine > 0 then (mass / flowRate_fl flowLine) * 100 else 0)
            (snd acc)))"

definition convertToDetailedStream :: "FlowLine \<Rightarrow> MineralComponent list \<Rightarrow> DetailedStream" where
  "convertToDetailedStream flowLine activeComponents =
     (let solidFlow' = flowRate_fl flowLine * (solidPercent_fl flowLine / 100);
          waterFlow' = flowRate_fl flowLine - solidFlow';
          volumetricFlow' = solidFlow' / jsor (density_fl flowLine) 2.8 + waterFlow' / 1.0;
          maps = fold (convert_comp flowLine solidFlow') activeComponents ([], [])
      in \<lparr> flowRate = flowRate_fl flowLine,
           solidPercent = solidPercent_fl flowLine,
           density = jsor (density_fl flowLine) 2.8,
           particleSize = jsor_opt (particleSize_fl flowLine) 150,
           mineralContent = (case mineralContent_fl flowLine of None \<Rightarrow> [] | Some m \<Rightarrow> m),
           volumetricFlow = volumetricFlow',
           componentMass = fst maps,
           componentPercentages = snd maps,
           waterFlow = waterFlow',
           solidFlow = solidFlow' \<rparr>)"

section \<open>Equipment transfer functions\<close>

text \<open>
  \<open>calculateEquipmentBalanceWithClosure\<close>, the definition in the module of the solver (the one
  the solver calls). \<open>sum_on\<close> is \<open>xs.reduce((sum, s) => sum + f(s), 0)\<close>. The object
  of total input masses has an entry for every active component, so the reads of
  \<open>totalInputComponentMass[comp.id]\<close> without a default find a number
  (\<open>totalInputComponentMass_get\<close> below).

  \<open>Array(n)\<close> throws a \<open>RangeError\<close> unless \<open>n\<close> is a whole number from 0 to
  \<open>2^32 - 1\<close>; the mixer calls it with its number of outputs when it has no \<open>splits\<close>.
  The loop \<open>for (let i = 0; i < numOutputs; i++)\<close> runs over the natural numbers below
  \<open>numOutputs\<close>. The other two faults belong to the solver and are explained there.
\<close>

datatype fault = RangeError | TypeError | WriteBeyondEnd

definition is_array_length :: "real \<Rightarrow> bool" where
  "is_array_length n = (0 \<le> n \<and> n < 2 ^ 32 \<and> n = of_int \<lfloor>n\<rfloor>)"

definition new_array :: "real \<Rightarrow> 'a \<Rightarrow> fault + 'a list" where
  "new_array n v = (if is_array_length n then Inr (replicate (nat \<lfloor>n\<rfloor>) v) else Inl RangeError)"

definition sum_on :: "('a \<Rightarrow> real) \<Rightarrow> 'a list \<Rightarrow> real" where
  "sum_on f xs = foldl (\<lambda>sum s. sum + f s) 0 xs"

definition totalInputComponentMass :: "DetailedStream list \<Rightarrow> MineralComponent list \<Rightarrow> real obj" where
  "totalInputComponentMass inputStreams activeComponents =
     fold (\<lambda>component acc. obj_set (id_mc component)
             (sum_on (\<lambda>s. jsor_opt (obj_get (componentMass s) (id_mc component)) 0) inputStreams) acc)
          activeComponents []"

definition mixer_output ::
  "DetailedStream list \<Rightarrow> MineralComponent list \<Rightarrow> real \<Rightarrow> real list \<Rightarrow> nat \<Rightarrow> DetailedStream" where
  "mixer_output inputStreams activeComponents numOutputs splits' i =
     (let totalInputFlow = sum_on flowRate inputStreams;
          totalInputSolids = sum_on (\<lambda>s. jsor (solidFlow s) 0) inputStreams;
          total = totalInputComponentMass inputStreams activeComponents;
          splitFraction = jsor_opt (index_at splits' i) (100 / numOutputs) / 100;
          outputFlow = totalInputFlow * splitFraction;
          outputSolids = totalInputSolids * splitFraction;
          maps = fold (\<lambda>component acc.
                   (let m = the (obj_get total (id_mc component)) * splitFraction
                    in (obj_set (id_mc component) m (fst acc),
                        obj_set (id_mc component)
                          (if outputSolids > 0 then (m / outputSolids) * 100 else 0) (snd acc))))
                 activeComponents ([], [])
      in \<lparr> flowRate = outputFlow,
           solidPercent = (if outputFlow > 0 then (outputSolids / outputFlow) * 100 else 0),
           density = 2.8,
           particleSize = 150,
           mineralContent = [],
           volumetricFlow = outputSolids / 2.8 + (outputFlow - outputSolids) / 1.0,
           componentMass = fst maps,
           componentPercentages = snd maps,
           waterFlow = outputFlow - outputSolids,
           solidFlow = outputSolids \<rparr>)"

text \<open>The recovery the flotation branch uses for a component:
  \<open>equipment.parameters.components?.[comp.id]?.recovery || (equipment.parameters.recovery || 85)\<close>.\<close>

definition componentRecovery :: "Equipment \<Rightarrow> string \<Rightarrow> real" where
  "componentRecovery equipment cid =
     jsor_opt (obj_get (recoveries (parameters equipment)) cid)
              (jsor (recovery (parameters equipment)) 85)"

definition flotation_masses ::
  "Equipment \<Rightarrow> DetailedStream list \<Rightarrow> MineralComponent list \<Rightarrow> real obj \<times> real obj" where
  "flotation_masses equipment inputStreams activeComponents =
     (let total = totalInputComponentMass inputStreams activeComponents
      in fold (\<lambda>component acc.
           (let inputMass = jsor_opt (obj_get total (id_mc component)) 0;
                masses = flotation_split exact inputMass (componentRecovery equipment (id_mc component))
            in (obj_set (id_mc component) (fst masses) (fst acc),
                obj_set (id_mc component) (snd masses) (snd acc))))
         activeComponents ([], []))"

definition flotation_outputs ::
  "Equipment \<Rightarrow> DetailedStream list \<Rightarrow> MineralComponent list \<Rightarrow> DetailedStream list" where
  "flotation_outputs equipment inputStreams activeComponents =
     (let input = hd inputStreams;
          totalInputFlow = sum_on flowRate inputStreams;
          masses = flotation_masses equipment inputStreams activeComponents;
          concentrateComponentMass = fst masses;
          tailingComponentMass = snd masses;
          concentrateFlow = totalInputFlow * 0.3;
          tailingFlow = totalInputFlow - concentrateFlow;
          concentrateSolids = concentrateFlow * 0.65;
          tailingSolids = tailingFlow * 0.35;
          pcts = fold (\<lambda>component acc.
                   (obj_set (id_mc component)
                      (if concentrateSolids > 0
                       then (the (obj_get concentrateComponentMass (id_mc component)) / concentrateSolids) * 100
                       else 0) (fst acc),
                    obj_set (id_mc component)
                      (if tailingSolids > 0
                       then (the (obj_get tailingComponentMass (id_mc component)) / tailingSolids) * 100
                       else 0) (snd acc)))
                 activeComponents ([], []);
          concentrate = \<lparr> flowRate = concentrateFlow,
                          solidPercent = 65,
                          density = density input,
                          particleSize = particleSize input,
                          mineralContent = [],
                          volumetricFlow = concentrateSolids / density input
                                           + (concentrateFlow - concentrateSolids) / 1.0,
                          componentMass = concentrateComponentMass,
                          componentPercentages = fst pcts,
                          waterFlow = concentrateFlow - concentrateSolids,
                          solidFlow = concentrateSolids \<rparr>;
          tailing = \<lparr> flowRate = tailingFlow,
                      solidPercent = 35,
                      density = density input,
                      particleSize = particleSize input,
                      mineralContent = [],
                      volumetricFlow = tailingSolids / density input
                                       + (tailingFlow - tailingSolids) / 1.0,
                      componentMass = tailingComponentMass,
                      componentPercentages = snd pcts,
                      waterFlow = tailingFlow - tailingSolids,
                      solidFlow = tailingSolids \<rparr>
      in [concentrate, tailing])"

definition calculateEquipmentBalanceWithClosure ::
  "Equipment \<Rightarrow> DetailedStream list \<Rightarrow> MineralComponent list \<Rightarrow> fault + DetailedStream list" where
  "calculateEquipmentBalanceWithClosure equipment inputStreams activeComponents =
     (if length inputStreams = 0 then Inr []
      else if type_eq equipment = ''mixer'' then
        (let numOutputs = jsor (numberOfOutputs (parameters equipment)) 1
         in case (case splits (parameters equipment) of
                    None \<Rightarrow> new_array numOutputs (100 / numOutputs)
                  | Some xs \<Rightarrow> Inr xs) of
              Inl e \<Rightarrow> Inl e
            | Inr splits' \<Rightarrow>
                Inr (map (mixer_output inputStreams activeComponents numOutputs splits')
                         [0..<nat \<lceil>numOutputs\<rceil>]))
      else if type_eq equipment = ''rougher'' \<or> type_eq equipment = ''cleaner''
              \<or> type_eq equipment = ''recleaner'' then
        Inr (flotation_outputs equipment inputStreams activeComponents)
      else
        Inr (map (\<lambda>stream. stream\<lparr> particleSize := jsor (targetSize (parameters equipment))
                                                      (particleSize stream * 0.5) \<rparr>)
                 inputStreams))"

section \<open>Propagation of stream data\<close>

text \<open>
  \<open>propagateStreamData\<close> works on a copy of the array of flow lines and replaces elements by
  fresh objects. An element the code got from \<open>filter\<close> is written back at
  \<open>indexOf(element)\<close>; the array holds one object per position, so that is the position the
  filter found it at, and the model carries the position with the element.
\<close>

definition lacks_data :: "FlowLine \<Rightarrow> bool" where
  "lacks_data fl = (flowRate_fl fl = 0 \<or> (case componentGrades fl of None \<Rightarrow> True
                                            | Some g \<Rightarrow> length (map fst g) = 0))"

definition opt_or :: "real option \<Rightarrow> real option \<Rightarrow> real option" where
  "opt_or a b = (case a of None \<Rightarrow> b | Some x \<Rightarrow> if x = 0 then b else Some x)"

definition grades_of :: "FlowLine \<Rightarrow> real obj" where
  "grades_of fl = (case componentGrades fl of None \<Rightarrow> [] | Some g \<Rightarrow> g)"

definition components_or :: "FlowLine \<Rightarrow> FlowLine \<Rightarrow> string list" where
  "components_or a b = (case components a of Some c \<Rightarrow> c
                        | None \<Rightarrow> (case components b of Some c \<Rightarrow> c | None \<Rightarrow> []))"

text \<open>CASE 1, the object written over an output stream of the equipment a feed goes to.\<close>

definition copy_forward :: "FlowLine \<Rightarrow> FlowLine \<Rightarrow> FlowLine" where
  "copy_forward outputStream flowLine =
     outputStream\<lparr> flowRate_fl := jsor (flowRate_fl outputStream) (flowRate_fl flowLine),
                   solidPercent_fl := jsor (solidPercent_fl outputStream) (solidPercent_fl flowLine),
                   density_fl := jsor (density_fl outputStream) (density_fl flowLine),
                   particleSize_fl := opt_or (particleSize_fl outputStream) (particleSize_fl flowLine),
                   components := Some (components_or outputStream flowLine),
                   componentGrades := Some (obj_spread (grades_of flowLine) (grades_of outputStream)) \<rparr>"

text \<open>CASE 2, the object written over an input stream of the equipment a product comes from.\<close>

definition copy_backward :: "FlowLine \<Rightarrow> FlowLine \<Rightarrow> FlowLine" where
  "copy_backward inputStream flowLine =
     inputStream\<lparr> flowRate_fl := jsor (flowRate_fl inputStream) (flowRate_fl flowLine),
                  solidPercent_fl := jsor (solidPercent_fl inputStream) (solidPercent_fl flowLine),
                  density_fl := jsor (density_fl inputStream) (density_fl flowLine),
                  particleSize_fl := Some (jsor_opt (particleSize_fl inputStream)
                                             (jsor_opt (particleSize_fl flowLine) 150 * 2)),
                  components := Some (components_or inputStream flowLine),
                  componentGrades := Some (obj_spread (grades_of flowLine) (grades_of inputStream)) \<rparr>"

definition indexed :: "'a list \<Rightarrow> (nat \<times> 'a) list" where
  "indexed xs = zip [0..<length xs] xs"

definition case1 :: "FlowLine \<Rightarrow> FlowLine list \<Rightarrow> FlowLine list \<times> nat" where
  "case1 flowLine updatedFlowLines =
     (if \<not> truthy_str (fromEquipment flowLine) \<and> truthy_str (toEquipment flowLine) then
        (let outputStreams = filter (\<lambda>jf. fromEquipment (snd jf) = toEquipment flowLine
                                           \<and> lacks_data (snd jf)) (indexed updatedFlowLines)
         in fold (\<lambda>jf st.
                    if flowRate_fl (snd jf) = 0 \<or> componentGrades (snd jf) = None
                    then ((fst st)[fst jf := copy_forward (snd jf) flowLine], snd st + 1)
                    else st)
                 outputStreams (updatedFlowLines, 0))
      else (updatedFlowLines, 0))"

definition case2 :: "FlowLine \<Rightarrow> FlowLine list \<Rightarrow> FlowLine list \<times> nat" where
  "case2 flowLine updatedFlowLines =
     (if truthy_str (fromEquipment flowLine) \<and> \<not> truthy_str (toEquipment flowLine) then
        (let inputStreams = filter (\<lambda>jf. toEquipment (snd jf) = fromEquipment flowLine
                                          \<and> lacks_data (snd jf)) (indexed updatedFlowLines)
         in fold (\<lambda>jf st.
                    if flowRate_fl (snd jf) = 0 \<or> componentGrades (snd jf) = None
                    then ((fst st)[fst jf := copy_backward (snd jf) flowLine], snd st + 1)
                    else st)
                 inputStreams (updatedFlowLines, 0))
      else (updatedFlowLines, 0))"

text \<open>CASE 3: the default grades of the active components, normalised to 100.\<close>

definition default_grades :: "MineralComponent list \<Rightarrow> real obj" where
  "default_grades activeComponents =
     (let newComponentGrades =
            fold (\<lambda>component acc. obj_set (id_mc component) (jsor (defaultGrade component) 0) acc)
                 activeComponents [];
          totalGrade = foldl (\<lambda>sum grade. sum + grade) 0 (map snd newComponentGrades)
      in if totalGrade > 0
         then map (\<lambda>kv. (fst kv, snd kv * (100 / totalGrade))) newComponentGrades
         else newComponentGrades)"

definition no_component_data :: "FlowLine \<Rightarrow> bool" where
  "no_component_data flowLine =
     ((case components flowLine of None \<Rightarrow> True | Some c \<Rightarrow> length c = 0)
      \<and> (case componentGrades flowLine of None \<Rightarrow> True | Some g \<Rightarrow> length (map fst g) = 0))"

definition case3 :: "MineralComponent list \<Rightarrow> nat \<Rightarrow> FlowLine \<Rightarrow> FlowLine list \<Rightarrow> FlowLine list \<times> nat" where
  "case3 activeComponents i flowLine updatedFlowLines =
     (if no_component_data flowLine then
        (updatedFlowLines[i := flowLine\<lparr> components := Some (map id_mc activeComponents),
                                          componentGrades := Some (default_grades activeComponents) \<rparr>],
         1)
      else (updatedFlowLines, 0))"

text \<open>CASE 4 writes from the object read at the start of the step, as the source does: what
  CASE 3 has just stored at the same position is overwritten.\<close>

definition estimatedFlow :: "FlowLine \<Rightarrow> FlowLine list \<Rightarrow> real" where
  "estimatedFlow flowLine updatedFlowLines =
     (if truthy_str (fromEquipment flowLine) then
        (let siblingInputs = filter (\<lambda>fl. toEquipment fl = fromEquipment flowLine \<and> flowRate_fl fl > 0)
                                    updatedFlowLines
         in if length siblingInputs > 0 then sum_on flowRate_fl siblingInputs else 1000)
      else 1000)"

definition case4 :: "nat \<Rightarrow> FlowLine \<Rightarrow> FlowLine list \<Rightarrow> FlowLine list \<times> nat" where
  "case4 i flowLine updatedFlowLines =
     (if flowRate_fl flowLine = 0 then
        (updatedFlowLines[i := flowLine\<lparr> flowRate_fl := estimatedFlow flowLine updatedFlowLines,
                                          solidPercent_fl := jsor (solidPercent_fl flowLine) 70,
                                          density_fl := jsor (density_fl flowLine) 2.8 \<rparr>],
         1)
      else (updatedFlowLines, 0))"

text \<open>The body of the inner loop at position \<open>i\<close>; the state is the array and
  \<open>changesInThisIteration\<close>.\<close>

definition propagate_step :: "MineralComponent list \<Rightarrow> nat \<Rightarrow> FlowLine list \<times> nat \<Rightarrow> FlowLine list \<times> nat" where
  "propagate_step activeComponents i st =
     (let flowLine = fst st ! i;
          r1 = case1 flowLine (fst st);
          r2 = case2 flowLine (fst r1);
          r3 = case3 activeComponents i flowLine (fst r2);
          r4 = case4 i flowLine (fst r3)
      in (fst r4, snd st + snd r1 + snd r2 + snd r3 + snd r4))"

definition propagate_pass :: "MineralComponent list \<Rightarrow> FlowLine list \<Rightarrow> FlowLine list \<times> nat" where
  "propagate_pass activeComponents updatedFlowLines =
     fold (propagate_step activeComponents) [0..<length updatedFlowLines] (updatedFlowLines, 0)"

function propagate_loop :: "MineralComponent list \<Rightarrow> nat \<Rightarrow> FlowLine list \<Rightarrow> FlowLine list" where
  "propagate_loop activeComponents iteration updatedFlowLines =
     (if iteration < 10 then
        (let r = propagate_pass activeComponents updatedFlowLines
         in if snd r = 0 then fst r
            else propagate_loop activeComponents (iteration + 1) (fst r))
      else updatedFlowLines)"
  by pat_completeness auto
termination
  by (relation "measure (\<lambda>(a, iteration, u). 10 - iteration)") auto

definition propagateStreamData :: "FlowLine list \<Rightarrow> MineralComponent list \<Rightarrow> FlowLine list" where
  "propagateStreamData flowLines mineralComponents =
     propagate_loop (filter isActive mineralComponents) 0 flowLines"

section \<open>Mass-balance closure\<close>

text \<open>
  The arrays of streams are copied shallowly and their elements updated in place. No two
  positions of an array of streams ever hold the same object or the same component maps
  (conversion, the transfer functions and normalisation build fresh ones), so an update at
  one position is an update of the list at that position.

  Input-class streams are the flow lines without \<open>fromEquipment\<close>, output-class streams
  those without \<open>toEquipment\<close>.
\<close>

definition inputIndices :: "FlowLine list \<Rightarrow> nat list" where
  "inputIndices flowLines =
     filter (\<lambda>idx. \<not> truthy_str (fromEquipment (flowLines ! idx))) [0..<length flowLines]"

definition outputIndices :: "FlowLine list \<Rightarrow> nat list" where
  "outputIndices flowLines =
     filter (\<lambda>idx. \<not> truthy_str (toEquipment (flowLines ! idx))) [0..<length flowLines]"

text \<open>\<open>streams[idx]?.f || 0\<close> and \<open>streams[idx]?.componentMass[id] || 0\<close>.\<close>

definition field_at :: "(DetailedStream \<Rightarrow> real) \<Rightarrow> DetailedStream list \<Rightarrow> nat \<Rightarrow> real" where
  "field_at f streams idx = (case index_at streams idx of None \<Rightarrow> 0 | Some s \<Rightarrow> jsor (f s) 0)"

definition mass_at :: "string \<Rightarrow> DetailedStream list \<Rightarrow> nat \<Rightarrow> real" where
  "mass_at cid streams idx =
     (case index_at streams idx of None \<Rightarrow> 0 | Some s \<Rightarrow> jsor_opt (obj_get (componentMass s) cid) 0)"

text \<open>\<open>indices.filter(idx => streams[idx])\<close>.\<close>

definition activeIndices :: "DetailedStream list \<Rightarrow> nat list \<Rightarrow> nat list" where
  "activeIndices streams indices = filter (\<lambda>idx. idx < length streams) indices"

text \<open>Assigning a component's mass in a stream and recomputing its percentage from the solid flow.\<close>

definition set_component :: "string \<Rightarrow> real \<Rightarrow> DetailedStream \<Rightarrow> DetailedStream" where
  "set_component cid m s =
     s\<lparr> componentMass := obj_set cid m (componentMass s),
        componentPercentages :=
          obj_set cid (if jsor (solidFlow s) 0 > 0 then (m / jsor (solidFlow s) 0) * 100 else 0)
                  (componentPercentages s) \<rparr>"

definition update_each :: "(DetailedStream \<Rightarrow> DetailedStream) \<Rightarrow> nat list \<Rightarrow> DetailedStream list \<Rightarrow> DetailedStream list" where
  "update_each f indices streams =
     fold (\<lambda>idx cs. if idx < length cs then cs[idx := f (cs ! idx)] else cs) indices streams"

text \<open>The comparison \<open>x / y > c\<close> of the source where \<open>y\<close> may be zero and \<open>x\<close> is not negative:
  the quotient is then \<open>Infinity\<close> (or \<open>NaN\<close> for \<open>x = 0\<close>, which compares false).\<close>

definition div_gt :: "real \<Rightarrow> real \<Rightarrow> real \<Rightarrow> bool" where
  "div_gt x y c = (if y = 0 then x > 0 else x / y > c)"

definition flow_closure :: "nat list \<Rightarrow> nat list \<Rightarrow> DetailedStream list \<Rightarrow> DetailedStream list" where
  "flow_closure inIdx outIdx closedStreams =
     (let totalInputFlow = sum_on (field_at flowRate closedStreams) inIdx;
          totalInputSolids = sum_on (field_at solidFlow closedStreams) inIdx;
          totalOutputFlow = sum_on (field_at flowRate closedStreams) outIdx
      in if totalOutputFlow = 0 \<or> div_gt \<bar>totalInputFlow - totalOutputFlow\<bar> totalInputFlow 0.1 then
           (let activeOutputs = activeIndices closedStreams outIdx
            in if length activeOutputs > 0 then
                 (let flowPerOutput = share exact totalInputFlow (length activeOutputs);
                      solidsPerOutput = share exact totalInputSolids (length activeOutputs)
                  in update_each (\<lambda>s. s\<lparr> flowRate := flowPerOutput,
                                          solidFlow := solidsPerOutput,
                                          solidPercent := (if flowPerOutput > 0
                                                           then (solidsPerOutput / flowPerOutput) * 100
                                                           else 0) \<rparr>)
                       activeOutputs closedStreams)
               else closedStreams)
         else closedStreams)"

definition scale_component :: "string \<Rightarrow> real \<Rightarrow> DetailedStream \<Rightarrow> DetailedStream" where
  "scale_component cid correctionFactor s =
     set_component cid (jsor_opt (obj_get (componentMass s) cid) 0 * correctionFactor) s"

definition component_closure :: "nat list \<Rightarrow> nat list \<Rightarrow> MineralComponent \<Rightarrow> DetailedStream list \<Rightarrow> DetailedStream list" where
  "component_closure inIdx outIdx component closedStreams =
     (let cid = id_mc component;
          totalInputComponentMass = sum_on (mass_at cid closedStreams) inIdx;
          totalOutputComponentMass = sum_on (mass_at cid closedStreams) outIdx;
          forward =
            (if totalInputComponentMass > 0
                \<and> \<bar>totalInputComponentMass - totalOutputComponentMass\<bar> > 0.001
             then update_each (scale_component cid
                                 (totalInputComponentMass / jsor totalOutputComponentMass 1))
                              outIdx closedStreams
             else closedStreams)
      in if totalInputComponentMass = 0 \<and> totalOutputComponentMass > 0 then
           (let activeInputs = activeIndices forward inIdx
            in if length activeInputs > 0
               then update_each (set_component cid (share exact totalOutputComponentMass (length activeInputs)))
                                activeInputs forward
               else forward)
         else forward)"

definition applyMassBalanceClosure :: "DetailedStream list \<Rightarrow> FlowLine list \<Rightarrow> MineralComponent list \<Rightarrow> DetailedStream list" where
  "applyMassBalanceClosure streams flowLines activeComponents =
     (let inIdx = inputIndices flowLines; outIdx = outputIndices flowLines
      in if length inIdx = 0 \<or> length outIdx = 0 then streams
         else fold (component_closure inIdx outIdx) activeComponents
                   (flow_closure inIdx outIdx streams))"

text \<open>\<open>applyGlobalMassBalanceWithClosure\<close>, the definition in the module of the solver.\<close>

definition global_component :: "nat list \<Rightarrow> nat list \<Rightarrow> MineralComponent \<Rightarrow> DetailedStream list \<Rightarrow> DetailedStream list" where
  "global_component inIdx outIdx component correctedStreams =
     (let cid = id_mc component;
          totalInputMass = sum_on (mass_at cid correctedStreams) inIdx;
          totalOutputMass = sum_on (mass_at cid correctedStreams) outIdx
      in if totalInputMass > 0 then
           (let correctionFactor = totalInputMass / jsor totalOutputMass 0.001
            in if totalOutputMass = 0 \<or> \<bar>correctionFactor - 1\<bar> > 0.01 then
                 (let activeOutputs = activeIndices correctedStreams outIdx
                  in if length activeOutputs > 0
                     then update_each (set_component cid (share exact totalInputMass (length activeOutputs)))
                                      activeOutputs correctedStreams
                     else correctedStreams)
               else correctedStreams)
         else if totalOutputMass > 0 then
           (let activeInputs = activeIndices correctedStreams inIdx
            in if length activeInputs > 0
               then update_each (set_component cid (share exact totalOutputMass (length activeInputs)))
                                activeInputs correctedStreams
               else correctedStreams)
         else correctedStreams)"

definition set_flow :: "real \<Rightarrow> DetailedStream \<Rightarrow> DetailedStream" where
  "set_flow flow s =
     (let solidFlow' = flow * (solidPercent s / 100);
          waterFlow' = flow * (1 - solidPercent s / 100)
      in s\<lparr> flowRate := flow,
            solidFlow := solidFlow',
            waterFlow := waterFlow',
            volumetricFlow := solidFlow' / density s + waterFlow' / 1.0 \<rparr>)"

definition global_flow :: "nat list \<Rightarrow> nat list \<Rightarrow> DetailedStream list \<Rightarrow> DetailedStream list" where
  "global_flow inIdx outIdx correctedStreams =
     (let totalInputFlow = sum_on (field_at flowRate correctedStreams) inIdx;
          totalOutputFlow = sum_on (field_at flowRate correctedStreams) outIdx
      in if totalInputFlow > 0
            \<and> (totalOutputFlow = 0 \<or> \<bar>totalInputFlow - totalOutputFlow\<bar> > 0.01) then
           (let activeOutputs = activeIndices correctedStreams outIdx
            in if length activeOutputs > 0
               then update_each (set_flow (share exact totalInputFlow (length activeOutputs)))
                                activeOutputs correctedStreams
               else correctedStreams)
         else if totalOutputFlow > 0 \<and> totalInputFlow = 0 then
           (let activeInputs = activeIndices correctedStreams inIdx
            in if length activeInputs > 0
               then update_each (set_flow (share exact totalOutputFlow (length activeInputs)))
                                activeInputs correctedStreams
               else correctedStreams)
         else correctedStreams)"

definition applyGlobalMassBalanceWithClosure :: "DetailedStream list \<Rightarrow> FlowLine list \<Rightarrow> MineralComponent list \<Rightarrow> DetailedStream list" where
  "applyGlobalMassBalanceWithClosure streams flowLines activeComponents =
     (let inIdx = inputIndices flowLines; outIdx = outputIndices flowLines
      in if length inIdx = 0 \<or> length outIdx = 0 then streams
         else global_flow inIdx outIdx
                (fold (global_component inIdx outIdx) activeComponents streams))"

section \<open>Normalisation, errors and convergence\<close>

definition totalPercentage :: "MineralComponent list \<Rightarrow> DetailedStream \<Rightarrow> real" where
  "totalPercentage activeComponents stream =
     sum_on (\<lambda>component. jsor_opt (obj_get (componentPercentages stream) (id_mc component)) 0)
            activeComponents"

definition normalize_stream :: "MineralComponent list \<Rightarrow> DetailedStream \<Rightarrow> DetailedStream" where
  "normalize_stream activeComponents stream =
     (let total = totalPercentage activeComponents stream
      in if total > 0 \<and> \<bar>total - 100\<bar> > 0.01 then
           (let normalizationFactor = 100 / total;
                maps = fold (\<lambda>component acc.
                         (let pct = jsor_opt (obj_get (componentPercentages stream) (id_mc component)) 0
                                    * normalizationFactor
                          in (obj_set (id_mc component) pct (fst acc),
                              obj_set (id_mc component) (jsor (solidFlow stream) 0 * (pct / 100)) (snd acc))))
                       activeComponents ([], [])
            in stream\<lparr> componentPercentages := fst maps, componentMass := snd maps \<rparr>)
         else stream)"

definition normalizeStreamCompositions :: "DetailedStream list \<Rightarrow> MineralComponent list \<Rightarrow> DetailedStream list" where
  "normalizeStreamCompositions streams activeComponents = map (normalize_stream activeComponents) streams"

definition calculateComponentErrors :: "DetailedStream list \<Rightarrow> FlowLine list \<Rightarrow> MineralComponent list \<Rightarrow> real obj" where
  "calculateComponentErrors streams flowLines activeComponents =
     fold (\<lambda>component errors.
             (let totalInput = sum_on (mass_at (id_mc component) streams) (inputIndices flowLines);
                  totalOutput = sum_on (mass_at (id_mc component) streams) (outputIndices flowLines)
              in obj_set (id_mc component)
                   (if totalInput > 0 then \<bar>totalInput - totalOutput\<bar> / totalInput * 100 else 0)
                   errors))
          activeComponents []"

definition calculateGlobalError :: "DetailedStream list \<Rightarrow> FlowLine list \<Rightarrow> real" where
  "calculateGlobalError streams flowLines =
     (let totalInput = sum_on (field_at flowRate streams) (inputIndices flowLines);
          totalOutput = sum_on (field_at flowRate streams) (outputIndices flowLines)
      in if totalInput > 0 then \<bar>totalInput - totalOutput\<bar> / totalInput * 100 else 0)"

text \<open>\<open>checkConvergence\<close>: \<open>Math.max(...Object.values(errors), 0)\<close> compared with the tolerance.\<close>

definition js_less :: "jsnum \<Rightarrow> real \<Rightarrow> bool" where
  "js_less x t = (case x of NegInfinity \<Rightarrow> True | Num v \<Rightarrow> v < t)"

definition checkConvergence :: "DetailedStream list \<Rightarrow> FlowLine list \<Rightarrow> MineralComponent list \<Rightarrow> real \<Rightarrow> bool \<times> jsnum" where
  "checkConvergence streams flowLines activeComponents tolerance =
     (let errors = calculateComponentErrors streams flowLines activeComponents;
          maxError = math_max (map snd errors @ [0])
      in (js_less maxError tolerance, maxError))"

section \<open>Coherence report\<close>

text \<open>The report is a list of strings in the source; here each line is a finding with the
  values the string is formatted from. The \<open>ERROR\<close> and \<open>WARNING\<close> lines are all the findings
  but the closing success line.\<close>

datatype finding =
    NegativeGrade nat string real
  | ImpossibleGrade nat string real
  | TotalComposition nat real
  | ImpossibleSolid nat real
  | InvalidDensity nat real
  | AllCoherent

definition is_issue :: "finding \<Rightarrow> bool" where
  "is_issue r = (r \<noteq> AllCoherent)"

definition stream_findings :: "MineralComponent list \<Rightarrow> nat \<times> DetailedStream \<Rightarrow> finding list" where
  "stream_findings activeComponents js =
     (let index = fst js; stream = snd js
      in concat (map (\<lambda>component.
                   (let percentage = jsor_opt (obj_get (componentPercentages stream) (id_mc component)) 0
                    in (if percentage < 0 then [NegativeGrade (index + 1) (symbol component) percentage] else [])
                       @ (if percentage > 100 then [ImpossibleGrade (index + 1) (symbol component) percentage] else [])))
                 activeComponents)
         @ (if \<bar>totalPercentage activeComponents stream - 100\<bar> > 0.1
            then [TotalComposition (index + 1) (totalPercentage activeComponents stream)] else [])
         @ (if solidPercent stream < 0 \<or> solidPercent stream > 100
            then [ImpossibleSolid (index + 1) (solidPercent stream)] else [])
         @ (if density stream \<le> 0 then [InvalidDensity (index + 1) (density stream)] else []))"

definition evaluateCoherence :: "DetailedStream list \<Rightarrow> MineralComponent list \<Rightarrow> finding list" where
  "evaluateCoherence streams activeComponents =
     (let report = concat (map (stream_findings activeComponents) (indexed streams))
      in if length report = 0 then [AllCoherent] else report)"

section \<open>The iterative solver\<close>

text \<open>
  An element read from an array of streams at a position found in the flow lines is
  \<open>undefined\<close> if the array is shorter; the transfer function would then throw a
  \<open>TypeError\<close> on its first property access. A write at such a position would extend the
  array. Both leave the model (\<open>Inl\<close>); the solver is shown below never to get there.
  The \<open>RangeError\<close> of a mixer passes through the solver, which catches nothing.
\<close>

definition write_outputs ::
  "FlowLine list \<Rightarrow> string list \<Rightarrow> DetailedStream list \<Rightarrow> DetailedStream list
     \<Rightarrow> fault + DetailedStream list" where
  "write_outputs pfl outputStreamIds outputStreams streams =
     fold (\<lambda>is acc.
             case acc of Inl e \<Rightarrow> Inl e
             | Inr ss \<Rightarrow>
                 (case index_at outputStreams (fst is) of None \<Rightarrow> Inr ss
                  | Some out \<Rightarrow>
                      (case findIndex (\<lambda>fl. id_fl fl = snd is) pfl of None \<Rightarrow> Inr ss
                       | Some streamIndex \<Rightarrow>
                           if streamIndex < length ss then Inr (ss[streamIndex := out])
                           else Inl WriteBeyondEnd)))
          (indexed outputStreamIds) (Inr streams)"

definition process_equipment ::
  "FlowLine list \<Rightarrow> MineralComponent list \<Rightarrow> Equipment \<Rightarrow> DetailedStream list
     \<Rightarrow> fault + DetailedStream list" where
  "process_equipment pfl activeComponents equipment streams =
     (let inputStreamIds = map id_fl (filter (\<lambda>fl. toEquipment fl = Some (id_eq equipment)) pfl);
          inputStreams = List.map_filter
                           (\<lambda>i. case findIndex (\<lambda>fl. id_fl fl = i) pfl of None \<Rightarrow> None
                                 | Some flIndex \<Rightarrow> Some (index_at streams flIndex))
                           inputStreamIds
      in if length inputStreams = 0 then Inr streams
         else if None \<in> set inputStreams then Inl TypeError
         else
           (case calculateEquipmentBalanceWithClosure equipment
                   (map the inputStreams) activeComponents of
              Inl e \<Rightarrow> Inl e
            | Inr outputStreams \<Rightarrow>
                (let outputStreamIds =
                       map id_fl (filter (\<lambda>fl. fromEquipment fl = Some (id_eq equipment)) pfl)
                 in write_outputs pfl outputStreamIds outputStreams streams)))"

text \<open>One pass of the \<open>while\<close> loop up to the convergence check: closure, the equipment in
  list order, global closure, normalisation.\<close>

definition iteration_body ::
  "Equipment list \<Rightarrow> FlowLine list \<Rightarrow> MineralComponent list \<Rightarrow> DetailedStream list
     \<Rightarrow> fault + DetailedStream list" where
  "iteration_body equipments pfl activeComponents streams =
     (case fold (\<lambda>equipment acc. case acc of Inl e \<Rightarrow> Inl e
                                  | Inr ss \<Rightarrow> process_equipment pfl activeComponents equipment ss)
                equipments (Inr (applyMassBalanceClosure streams pfl activeComponents)) of
        Inl e \<Rightarrow> Inl e
      | Inr ss \<Rightarrow> Inr (normalizeStreamCompositions
                        (applyGlobalMassBalanceWithClosure ss pfl activeComponents) activeComponents))"

text \<open>\<open>while (!converged && iteration < maxIterations)\<close>: the loop is entered with
  \<open>converged = false\<close> and left at once when a check succeeds. The result is
  \<open>(converged, iteration, streams)\<close>.\<close>

function solve_loop ::
  "Equipment list \<Rightarrow> FlowLine list \<Rightarrow> MineralComponent list \<Rightarrow> nat \<Rightarrow> real \<Rightarrow> nat
     \<Rightarrow> DetailedStream list \<Rightarrow> fault + (bool \<times> nat \<times> DetailedStream list)" where
  "solve_loop equipments pfl activeComponents maxIterations tolerance iteration streams =
     (if iteration < maxIterations then
        (case iteration_body equipments pfl activeComponents streams of
           Inl e \<Rightarrow> Inl e
         | Inr ss \<Rightarrow>
             if fst (checkConvergence ss pfl activeComponents tolerance)
             then Inr (True, iteration + 1, ss)
             else solve_loop equipments pfl activeComponents maxIterations tolerance (iteration + 1) ss)
      else Inr (False, iteration, streams))"
  by pat_completeness auto
termination
  by (relation "measure (\<lambda>(e, p, a, maxIterations, t, iteration, s). maxIterations - iteration)") auto

record IterativeResult =
  converged :: bool
  iterations :: nat
  globalError :: real
  componentErrors :: "real obj"
  maxError :: jsnum
  coherenceIssues :: "finding list"

record SolveResult =
  streams_res :: "DetailedStream list"
  iterativeResult :: IterativeResult
  coherenceReport :: "finding list"
  propagatedFlowLines :: "FlowLine list"

definition solveIterativeMassBalance ::
  "Equipment list \<Rightarrow> FlowLine list \<Rightarrow> MineralComponent list \<Rightarrow> nat \<Rightarrow> real \<Rightarrow> fault + SolveResult" where
  "solveIterativeMassBalance equipments flowLines mineralComponents maxIterations tolerance =
     (let activeComponents = filter isActive mineralComponents;
          pfl = propagateStreamData flowLines mineralComponents;
          initial = map (\<lambda>fl. convertToDetailedStream fl activeComponents) pfl
      in case solve_loop equipments pfl activeComponents maxIterations tolerance 0 initial of
           Inl e \<Rightarrow> Inl e
         | Inr r \<Rightarrow>
             (let final = snd (snd r);
                  report = evaluateCoherence final activeComponents
              in Inr \<lparr> streams_res = final,
                       iterativeResult =
                         \<lparr> converged = fst r,
                           iterations = fst (snd r),
                           globalError = (if length final > 0 then calculateGlobalError final pfl else 0),
                           componentErrors = calculateComponentErrors final pfl activeComponents,
                           maxError = math_max (map snd (calculateComponentErrors final pfl activeComponents)),
                           coherenceIssues = filter is_issue report \<rparr>,
                       coherenceReport = report,
                       propagatedFlowLines = pfl \<rparr>))"

section \<open>Mixing of material streams\<close>

text \<open>\<open>mixStreams\<close> throws on an empty list; \<open>Inl\<close> carries the message of the \<open>Error\<close>.
  A \<open>Set\<close> of keys is the list of its elements in insertion order. The quotients by
  \<open>totalVolume\<close>, \<open>totalSurfaceArea\<close> and \<open>totalFlow\<close> are not guarded in the source; in the
  source they yield a non-finite number at zero and never an exception, so the values of
  those fields are meaningful here only for nonzero denominators.\<close>

definition set_add :: "string list \<Rightarrow> string \<Rightarrow> string list" where
  "set_add acc k = (if k \<in> set acc then acc else acc @ [k])"

definition mixStreams :: "MaterialStream list \<Rightarrow> real \<Rightarrow> string + MaterialStream" where
  "mixStreams mstreams efficiency =
     (if length mstreams = 0 then Inl ''No streams to mix''
      else if length mstreams = 1 then Inr (mstreams ! 0)
      else
        (let totalFlow = sum_on flowRate_ms mstreams;
             outputTotalFlow = totalFlow * (efficiency / 100);
             totalSolidFlow = sum_on (\<lambda>stream. flowRate_ms stream * solidPercent_ms stream / 100) mstreams;
             outputSolidFlow = totalSolidFlow * (efficiency / 100);
             mixedSolidPercent = (if outputTotalFlow > 0 then (outputSolidFlow / outputTotalFlow) * 100 else 0);
             totalVolume = sum_on (\<lambda>stream. flowRate_ms stream / density_ms stream) mstreams;
             mixedDensity = totalFlow / totalVolume;
             totalSurfaceArea = sum_on (\<lambda>stream. flowRate_ms stream / particleSize_ms stream) mstreams;
             mixedParticleSize = totalFlow / totalSurfaceArea;
             allMinerals = foldl set_add [] (concat (map (\<lambda>stream. map fst (mineralContent_ms stream)) mstreams));
             mixedMineralContent =
               fold (\<lambda>mineral acc.
                       obj_set mineral
                         ((sum_on (\<lambda>stream. flowRate_ms stream
                                     * jsor_opt (obj_get (mineralContent_ms stream) mineral) 0 / 100) mstreams
                           / totalFlow) * 100) acc)
                    allMinerals [];
             allComponents = foldl set_add []
                               (concat (map (\<lambda>stream. case components_ms stream of None \<Rightarrow> []
                                                       | Some c \<Rightarrow> map fst c) mstreams));
             mixedComponents =
               fold (\<lambda>cname acc.
                       (let cmass = sum_on (\<lambda>stream.
                                      (let grade = jsor_opt (case components_ms stream of None \<Rightarrow> None
                                                             | Some c \<Rightarrow> obj_get c cname) 0;
                                           solidFlow' = flowRate_ms stream * (solidPercent_ms stream / 100)
                                       in solidFlow' * grade / 100)) mstreams
                        in obj_set cname (if outputSolidFlow > 0 then (cmass / outputSolidFlow) * 100 else 0) acc))
                    allComponents []
         in Inr \<lparr> flowRate_ms = outputTotalFlow,
                  solidPercent_ms = mixedSolidPercent,
                  density_ms = mixedDensity,
                  particleSize_ms = mixedParticleSize,
                  mineralContent_ms = mixedMineralContent,
                  waterFlow_ms = Some (sum_on (\<lambda>stream. jsor_opt (waterFlow_ms stream) 0) mstreams
                                       * (efficiency / 100)),
                  solidFlow_ms = Some outputSolidFlow,
                  components_ms = Some mixedComponents \<rparr>))"

section \<open>Example circuits\<close>

text \<open>One active component, iron, and a feed of 1000 t/h at 70 % solids grading 35 % iron
  into equipment \<open>e1\<close>; a product of 500 t/h leaving \<open>e1\<close>.\<close>

definition ex_fe :: MineralComponent where
  "ex_fe = \<lparr> id_mc = ''fe'', symbol = ''Fe'', defaultGrade = 35, isActive = True \<rparr>"

definition ex_feed :: FlowLine where
  "ex_feed = \<lparr> id_fl = ''f1'', fromEquipment = None, toEquipment = Some ''e1'',
               flowRate_fl = 1000, solidPercent_fl = 70, density_fl = 2.8,
               particleSize_fl = Some 150, components = Some [''fe''],
               componentGrades = Some [(''fe'', 35)], mineralContent_fl = None \<rparr>"

definition ex_product :: FlowLine where
  "ex_product = \<lparr> id_fl = ''p1'', fromEquipment = Some ''e1'', toEquipment = None,
                  flowRate_fl = 500, solidPercent_fl = 70, density_fl = 2.8,
                  particleSize_fl = Some 150, components = Some [''fe''],
                  componentGrades = Some [(''fe'', 35)], mineralContent_fl = None \<rparr>"



definition ex_stream :: MaterialStream where
  "ex_stream = \<lparr> flowRate_ms = 100, solidPercent_ms = 70, density_ms = 2.8, particleSize_ms = 150,
                 mineralContent_ms = [(''fe'', 35)], waterFlow_ms = None, solidFlow_ms = None,
                 components_ms = None \<rparr>"

definition ex_ghost :: Equipment where
  "ex_ghost = \<lparr> id_eq = ''ghost'', type_eq = ''mixer'',
                parameters = \<lparr> numberOfOutputs = 2, splits = None, recovery = 0,
                               recoveries = [], targetSize = 0 \<rparr> \<rparr>"

text \<open>A mixer fed by the example feed whose number of outputs was entered as -1.\<close>

definition ex_bad_mixer :: Equipment where
  "ex_bad_mixer = \<lparr> id_eq = ''e1'', type_eq = ''mixer'',
                    parameters = \<lparr> numberOfOutputs = -1, splits = None, recovery = 0,
                                   recoveries = [], targetSize = 0 \<rparr> \<rparr>"

text \<open>The same mixer with a \<open>splits\<close> array of its own, and one whose number of outputs was
  entered as 2.5.\<close>

definition ex_split_mixer :: Equipment where
  "ex_split_mixer = \<lparr> id_eq = ''e1'', type_eq = ''mixer'',
                      parameters = \<lparr> numberOfOutputs = -1, splits = Some [100], recovery = 0,
                                     recoveries = [], targetSize = 0 \<rparr> \<rparr>"

definition ex_fraction_mixer :: Equipment where
  "ex_fraction_mixer = \<lparr> id_eq = ''e1'', type_eq = ''mixer'',
                         parameters = \<lparr> numberOfOutputs = 2.5, splits = None, recovery = 0,
                                        recoveries = [], targetSize = 0 \<rparr> \<rparr>"

text \<open>A second material stream, with the optional fields present.\<close>

definition ex_slurry :: MaterialStream where
  "ex_slurry = \<lparr> flowRate_ms = 300, solidPercent_ms = 50, density_ms = 2, particleSize_ms = 100,
                 mineralContent_ms = [(''fe'', 20), (''si'', 10)], waterFlow_ms = Some 150,
                 solidFlow_ms = Some 150, components_ms = Some [(''fe'', 20)] \<rparr>"

definition ex_thin_product :: FlowLine where
  "ex_thin_product = ex_product \<lparr> flowRate_fl := 1000, solidPercent_fl := 35 \<rparr>"

definition ex_barren_feed :: FlowLine where
  "ex_barren_feed = ex_feed \<lparr> componentGrades := Some [(''fe'', 0)] \<rparr>"

definition ex_barren_product :: FlowLine where
  "ex_barren_product = ex_product \<lparr> flowRate_fl := 1000, componentGrades := Some [(''fe'', 0)] \<rparr>"





section \<open>Quantities the properties are about\<close>

text \<open>An equipment that cannot make \<open>Array\<close> throw: not a mixer, or a mixer with
  \<open>splits\<close>, or one whose number of outputs is a valid array length.\<close>

definition array_safe :: "Equipment \<Rightarrow> bool" where
  "array_safe equipment =
     (type_eq equipment = ''mixer'' \<and> splits (parameters equipment) = None
        \<longrightarrow> is_array_length (jsor (numberOfOutputs (parameters equipment)) 1))"

text \<open>The mass of a component summed over the input-class and over the output-class
  streams, as \<open>calculateComponentErrors\<close> sums them.\<close>

definition input_mass :: "string \<Rightarrow> DetailedStream list \<Rightarrow> FlowLine list \<Rightarrow> real" where
  "input_mass cid streams flowLines = sum_on (mass_at cid streams) (inputIndices flowLines)"

definition output_mass :: "string \<Rightarrow> DetailedStream list \<Rightarrow> FlowLine list \<Rightarrow> real" where
  "output_mass cid streams flowLines = sum_on (mass_at cid streams) (outputIndices flowLines)"



text \<open>
  The closure invariant in the words of the specification:
  \<open>|input - output| / input \<times> 100 < tolerance\<close>. There is no quotient for a zero input
  sum (in the arithmetic of the source it is \<open>Infinity\<close> or \<open>NaN\<close>, and neither compares
  below a tolerance), so the invariant does not hold there.
\<close>

definition closure_invariant :: "real \<Rightarrow> real \<Rightarrow> real \<Rightarrow> bool" where
  "closure_invariant tolerance totalIn totalOut =
     (totalIn \<noteq> 0 \<and> \<bar>totalIn - totalOut\<bar> / totalIn * 100 < tolerance)"

section \<open>Notions for the fixed point of propagation\<close>

text \<open>
  A feed stream enters the circuit at an equipment, a product stream leaves it from one.
  \<open>forward_write\<close> is what CASE 1 of a step at \<open>flowLine\<close> does to an element of the
  array, \<open>backward_write\<close> what CASE 2 does, \<open>defaults_write\<close> what CASE 3 stores. A line is
  \<open>settled\<close> when CASE 3 would store the line itself, \<open>graded\<close> when it has a grades object,
  and an array is in a \<open>stable_state\<close> when no case of any step changes it.
\<close>

definition is_feed :: "FlowLine \<Rightarrow> bool" where
  "is_feed fl = (\<not> truthy_str (fromEquipment fl) \<and> truthy_str (toEquipment fl))"

definition is_product :: "FlowLine \<Rightarrow> bool" where
  "is_product fl = (truthy_str (fromEquipment fl) \<and> \<not> truthy_str (toEquipment fl))"

definition needs_forward :: "FlowLine \<Rightarrow> FlowLine \<Rightarrow> bool" where
  "needs_forward flowLine fl =
     ((fromEquipment fl = toEquipment flowLine \<and> lacks_data fl)
      \<and> (flowRate_fl fl = 0 \<or> componentGrades fl = None))"

definition needs_backward :: "FlowLine \<Rightarrow> FlowLine \<Rightarrow> bool" where
  "needs_backward flowLine fl =
     ((toEquipment fl = fromEquipment flowLine \<and> lacks_data fl)
      \<and> (flowRate_fl fl = 0 \<or> componentGrades fl = None))"

definition forward_write :: "FlowLine \<Rightarrow> FlowLine \<Rightarrow> FlowLine" where
  "forward_write flowLine fl =
     (if is_feed flowLine \<and> needs_forward flowLine fl then copy_forward fl flowLine else fl)"

definition backward_write :: "FlowLine \<Rightarrow> FlowLine \<Rightarrow> FlowLine" where
  "backward_write flowLine fl =
     (if is_product flowLine \<and> needs_backward flowLine fl then copy_backward fl flowLine else fl)"

definition defaults_write :: "MineralComponent list \<Rightarrow> FlowLine \<Rightarrow> FlowLine" where
  "defaults_write ac flowLine =
     flowLine\<lparr> components := Some (map id_mc ac), componentGrades := Some (default_grades ac) \<rparr>"

definition has_flow :: "FlowLine \<Rightarrow> bool" where
  "has_flow fl = (flowRate_fl fl \<noteq> 0)"

definition ends :: "FlowLine \<Rightarrow> string option \<times> string option" where
  "ends fl = (fromEquipment fl, toEquipment fl)"

definition graded :: "FlowLine \<Rightarrow> bool" where
  "graded fl = (componentGrades fl \<noteq> None)"

definition settled :: "MineralComponent list \<Rightarrow> FlowLine \<Rightarrow> bool" where
  "settled ac fl = (no_component_data fl \<longrightarrow> defaults_write ac fl = fl)"

definition stable_state :: "MineralComponent list \<Rightarrow> FlowLine list \<Rightarrow> bool" where
  "stable_state ac arr =
     ((\<forall>fl \<in> set arr. has_flow fl \<and> settled ac fl)
      \<and> (\<forall>f \<in> set arr. \<forall>g \<in> set arr.
            is_feed f \<and> fromEquipment g = toEquipment f \<longrightarrow> graded g)
      \<and> (\<forall>f \<in> set arr. \<forall>g \<in> set arr.
            is_product f \<and> toEquipment g = fromEquipment f \<longrightarrow> graded g))"

definition pass_invariant ::
  "MineralComponent list \<Rightarrow> FlowLine list \<Rightarrow> nat \<Rightarrow> FlowLine list \<Rightarrow> bool" where
  "pass_invariant ac y k arr =
     (length arr = length y
      \<and> (\<forall>j < length y. ends (arr ! j) = ends (y ! j) \<and> has_flow (arr ! j))
      \<and> (\<forall>j < k. settled ac (arr ! j))
      \<and> (\<forall>i < k. \<forall>j < length y.
            is_feed (y ! i) \<and> fst (ends (y ! j)) = snd (ends (y ! i)) \<longrightarrow> graded (arr ! j))
      \<and> (\<forall>i < k. \<forall>j < length y.
            is_product (y ! i) \<and> snd (ends (y ! j)) = fst (ends (y ! i)) \<longrightarrow> graded (arr ! j)))"

section \<open>Exact arithmetic\<close>

lemma exact_apply [simp]: "exact x = x"
  by (simp add: exact_def)

lemma share_exact [simp]: "share exact amount n = amount / real n"
  by (simp add: share_def)

lemma flotation_split_exact [simp]:
  "flotation_split exact inputMass r = (inputMass * (r / 100), inputMass - inputMass * (r / 100))"
  by (simp add: flotation_split_def Let_def)

section \<open>The error of a rounding\<close>

text \<open>
  \<open>binade\<close> brackets a positive number between two powers of two, the nearest whole
  number is at most a half away, and so a rounding to binary64 moves a number by at most
  the fraction \<open>2^-53\<close> of its magnitude (by at most half the subnormal spacing, \<open>2^-1075\<close>,
  near zero).
\<close>

lemma pow2_powr: "pow2 e = 2 powr real_of_int e"
  by (cases "0 \<le> e") (simp_all add: pow2_def powr_realpow [symmetric] powr_minus_divide [symmetric])

lemma pow2_pos [simp]: "0 < pow2 e"
  by (simp add: pow2_powr)





text \<open>
  The rounding at some numbers: 0.1, a third and -7.7 go to the nearest binary64 values, a
  whole number stays, a tie goes to the even significand, and 0.1 + 0.2 is
  0.30000000000000004.
\<close>

lemma binary64_examples:
  "binary64 0.1 = 3602879701896397 / 2 ^ 55
   \<and> binary64 (1 / 3) = 6004799503160661 / 2 ^ 54
   \<and> binary64 (- 7.7) = - (8669429282688205 / 2 ^ 50)
   \<and> binary64 1000 = 1000
   \<and> binary64 (1 + 1 / 2 ^ 53) = 1
   \<and> binary64 (1 + 3 / 2 ^ 53) = 1 + 1 / 2 ^ 51
   \<and> binary64 (2 - 1 / 2 ^ 54) = 2
   \<and> binary64 (binary64 0.1 + binary64 0.2) = binary64 0.3 + 1 / 2 ^ 54"
  by code_simp

section \<open>Objects and sums\<close>

lemma jsor_zero [simp]: "jsor x 0 = x"
  by (simp add: jsor_def)

lemma sum_on_sum_list: "sum_on f xs = sum_list (map f xs)"
proof -
  have "foldl (\<lambda>sum s. sum + f s) z xs = z + sum_list (map f xs)" for z
    by (induction xs arbitrary: z) (auto simp: algebra_simps)
  then show ?thesis by (simp add: sum_on_def)
qed

lemma obj_get_set: "obj_get (obj_set k v m) k' = (if k' = k then Some v else obj_get m k')"
  by (induction m) (auto simp: obj_get_def)

lemma fold_pair_split:
  "fold (\<lambda>c acc. (f c (fst acc), g c (snd acc))) cs (a, b) = (fold f cs a, fold g cs b)"
  by (induction cs arbitrary: a b) auto

lemma obj_get_fold_set:
  "obj_get (fold (\<lambda>c acc. obj_set (key c) (h (key c)) acc) cs m) k
     = (if k \<in> key ` set cs then Some (h k) else obj_get m k)"
  by (induction cs arbitrary: m) (auto simp: obj_get_set)



section \<open>Flotation: closure by construction\<close>






section \<open>The basis of the component percentages\<close>

text \<open>
  Claim C8. The closures and the transfer functions compute a percentage as the mass of the
  component over the solid flow of the stream, times 100 (\<open>set_component\<close>,
  \<open>mixer_output\<close>, \<open>flotation_outputs\<close>). The conversion of a flow line divides by the flow
  rate of the pulp instead: the example feed has 700 t/h of solids holding 245 t/h of iron,
  which is 35 % of the solids, and the conversion stores 24.5.
\<close>

theorem conversion_percentage_on_pulp_basis:
  "solidFlow (convertToDetailedStream ex_feed [ex_fe]) = 700
   \<and> obj_get (componentMass (convertToDetailedStream ex_feed [ex_fe])) ''fe'' = Some 245
   \<and> obj_get (componentPercentages (convertToDetailedStream ex_feed [ex_fe])) ''fe'' = Some (49 / 2)
   \<and> (245 / 700) * 100 = (35 :: real)"
  by code_simp

section \<open>Solid flow and water flow\<close>

text \<open>
  Claim C6. \<open>flow_closure\<close> assigns the flow rate, the solid flow and the solids percent of an
  output stream and keeps its water flow, where \<open>set_flow\<close> of the global closure assigns
  all of them. On the example circuit the product goes from 500 t/h to 1000 t/h with
  700 t/h of solids, and its water flow stays at the 150 of the old flow rate; the flow
  rate less the solid flow is 300. The solver returns the stream in that state.
\<close>

theorem closure_leaves_waterFlow_stale:
  "map (\<lambda>s. (flowRate s, solidPercent s, solidFlow s, waterFlow s))
       (applyMassBalanceClosure (map (\<lambda>fl. convertToDetailedStream fl [ex_fe]) [ex_feed, ex_product])
          [ex_feed, ex_product] [ex_fe])
     = [(1000, 70, 700, 300), (1000, 70, 700, 150)]
   \<and> (case solveIterativeMassBalance [] [ex_feed, ex_product] [ex_fe] 50 0.001 of
         Inl e \<Rightarrow> []
       | Inr r \<Rightarrow> map (\<lambda>s. (flowRate s, solidPercent s, solidFlow s, waterFlow s)) (streams_res r))
     = [(1000, 70, 700, 300), (1000, 70, 700, 150)]"
  by code_simp

section \<open>The arrays keep their length\<close>

lemma length_update_each [simp]: "length (update_each f idxs ss) = length ss"
  unfolding update_each_def by (induction idxs arbitrary: ss) auto

lemma length_flow_closure [simp]: "length (flow_closure inIdx outIdx ss) = length ss"
  by (simp add: flow_closure_def Let_def)

lemma length_component_closure [simp]: "length (component_closure inIdx outIdx c ss) = length ss"
  by (simp add: component_closure_def Let_def)

lemma length_fold_component_closure [simp]:
  "length (fold (component_closure inIdx outIdx) cs ss) = length ss"
  by (induction cs arbitrary: ss) auto

lemma length_applyMassBalanceClosure [simp]:
  "length (applyMassBalanceClosure ss pfl ac) = length ss"
  by (simp add: applyMassBalanceClosure_def Let_def)

lemma length_global_component [simp]: "length (global_component inIdx outIdx c ss) = length ss"
  by (simp add: global_component_def Let_def)

lemma length_fold_global_component [simp]:
  "length (fold (global_component inIdx outIdx) cs ss) = length ss"
  by (induction cs arbitrary: ss) auto

lemma length_global_flow [simp]: "length (global_flow inIdx outIdx ss) = length ss"
  by (simp add: global_flow_def Let_def)

lemma length_applyGlobalMassBalanceWithClosure [simp]:
  "length (applyGlobalMassBalanceWithClosure ss pfl ac) = length ss"
  by (simp add: applyGlobalMassBalanceWithClosure_def Let_def)

lemma length_normalizeStreamCompositions [simp]:
  "length (normalizeStreamCompositions ss ac) = length ss"
  by (simp add: normalizeStreamCompositions_def)

section \<open>The solver stays inside the model\<close>

lemma findIndex_less: "findIndex p xs = Some i \<Longrightarrow> i < length xs"
  by (induction xs arbitrary: i) (auto split: if_splits)

lemma findIndex_member: "x \<in> set xs \<Longrightarrow> p x \<Longrightarrow> \<exists>i. findIndex p xs = Some i"
  by (induction xs) auto

lemma write_outputs_step:
  assumes "length ss = length pfl"
  shows "\<exists>ss'. fold (\<lambda>is acc.
             case acc of Inl e \<Rightarrow> Inl e
             | Inr ss \<Rightarrow>
                 (case index_at outputStreams (fst is) of None \<Rightarrow> Inr ss
                  | Some out \<Rightarrow>
                      (case findIndex (\<lambda>fl. id_fl fl = snd is) pfl of None \<Rightarrow> Inr ss
                       | Some streamIndex \<Rightarrow>
                           if streamIndex < length ss then Inr (ss[streamIndex := out])
                           else Inl WriteBeyondEnd)))
          xs (Inr ss) = Inr ss' \<and> length ss' = length pfl"
  using assms
proof (induction xs arbitrary: ss)
  case Nil
  then show ?case by simp
next
  case (Cons x xs)
  show ?case
  proof (cases "index_at outputStreams (fst x)")
    case None
    then show ?thesis using Cons by simp
  next
    case (Some out)
    show ?thesis
    proof (cases "findIndex (\<lambda>fl. id_fl fl = snd x) pfl")
      case None
      then show ?thesis using Some Cons by simp
    next
      case (Some i)
      then have "i < length ss" using findIndex_less Cons.prems by fastforce
      then show ?thesis
        using Some \<open>index_at outputStreams (fst x) = Some out\<close> Cons.IH [of "ss[i := out]"] Cons.prems
        by simp
    qed
  qed
qed

lemma write_outputs_total:
  "length ss = length pfl \<Longrightarrow>
   \<exists>ss'. write_outputs pfl ids outs ss = Inr ss' \<and> length ss' = length pfl"
  unfolding write_outputs_def by (rule write_outputs_step)

lemma input_streams_defined:
  assumes "length ss = length pfl"
  shows "None \<notin> set (List.map_filter
                        (\<lambda>i. case findIndex (\<lambda>fl. id_fl fl = i) pfl of None \<Rightarrow> None
                              | Some flIndex \<Rightarrow> Some (index_at ss flIndex)) ids)"
proof -
  have "\<And>i j. findIndex (\<lambda>fl. id_fl fl = i) pfl = Some j \<Longrightarrow> index_at ss j \<noteq> None"
    using assms findIndex_less by (fastforce simp: index_at_def)
  then show ?thesis
    by (fastforce simp: List.map_filter_def split: option.splits)
qed

lemma process_equipment_length:
  assumes "length ss = length pfl" and "process_equipment pfl ac equipment ss = Inr ss'"
  shows "length ss' = length pfl"
proof -
  have w: "length out = length pfl" if "write_outputs pfl ids outs ss = Inr out" for ids outs out
    using write_outputs_total [OF assms(1), of ids outs] that by auto
  show ?thesis
    using assms w unfolding process_equipment_def Let_def
    by (auto split: if_splits sum.splits)
qed

lemma calculateEquipmentBalanceWithClosure_total:
  "array_safe equipment \<Longrightarrow>
   \<exists>outs. calculateEquipmentBalanceWithClosure equipment ins ac = Inr outs"
  by (auto simp: calculateEquipmentBalanceWithClosure_def array_safe_def new_array_def Let_def
           split: option.splits)

lemma process_equipment_total:
  assumes "length ss = length pfl" and "array_safe equipment"
  shows "\<exists>ss'. process_equipment pfl ac equipment ss = Inr ss'"
proof -
  let ?ins = "List.map_filter
                (\<lambda>i. case findIndex (\<lambda>fl. id_fl fl = i) pfl of None \<Rightarrow> None
                      | Some flIndex \<Rightarrow> Some (index_at ss flIndex))
                (map id_fl (filter (\<lambda>fl. toEquipment fl = Some (id_eq equipment)) pfl))"
  let ?ids = "map id_fl (filter (\<lambda>fl. fromEquipment fl = Some (id_eq equipment)) pfl)"
  show ?thesis
  proof (cases "length ?ins = 0")
    case True
    then show ?thesis
      by (simp add: process_equipment_def Let_def)
  next
    case False
    have defined: "None \<notin> set ?ins"
      by (rule input_streams_defined [OF assms(1)])
    obtain outs where outs: "calculateEquipmentBalanceWithClosure equipment (map the ?ins) ac = Inr outs"
      using calculateEquipmentBalanceWithClosure_total [OF assms(2)] by blast
    obtain ss' where "write_outputs pfl ?ids outs ss = Inr ss'"
      using write_outputs_total [OF assms(1)] by blast
    then show ?thesis
      using False defined outs by (simp add: process_equipment_def Let_def)
  qed
qed

lemma fold_process_equipment_length:
  assumes "length ss = length pfl"
    and "fold (\<lambda>equipment acc. case acc of Inl e \<Rightarrow> Inl e
                 | Inr ss \<Rightarrow> process_equipment pfl ac equipment ss) equipments (Inr ss) = Inr ss'"
  shows "length ss' = length pfl"
  using assms
proof (induction equipments arbitrary: ss)
  case Nil
  then show ?case by simp
next
  case (Cons equipment equipments)
  show ?case
  proof (cases "process_equipment pfl ac equipment ss")
    case (Inl e)
    have "fold (\<lambda>equipment acc. case acc of Inl e \<Rightarrow> Inl e
                 | Inr ss \<Rightarrow> process_equipment pfl ac equipment ss) equipments (Inl e) = Inl e"
      by (induction equipments) simp_all
    then show ?thesis using Cons.prems(2) Inl by simp
  next
    case (Inr ss1)
    then have "length ss1 = length pfl"
      using process_equipment_length [OF Cons.prems(1)] by blast
    then show ?thesis
      using Cons.IH [of ss1] Cons.prems(2) Inr by simp
  qed
qed

lemma fold_process_equipment_total:
  assumes "length ss = length pfl" and "\<forall>equipment \<in> set equipments. array_safe equipment"
  shows "\<exists>ss'. fold (\<lambda>equipment acc. case acc of Inl e \<Rightarrow> Inl e
                       | Inr ss \<Rightarrow> process_equipment pfl ac equipment ss) equipments (Inr ss)
                = Inr ss'"
  using assms
proof (induction equipments arbitrary: ss)
  case Nil
  then show ?case by simp
next
  case (Cons equipment equipments)
  have "array_safe equipment"
    using Cons.prems(2) by simp
  then obtain ss1 where p: "process_equipment pfl ac equipment ss = Inr ss1"
    using process_equipment_total [OF Cons.prems(1)] by blast
  then have "length ss1 = length pfl"
    using process_equipment_length [OF Cons.prems(1)] by blast
  then show ?case using Cons.IH [of ss1] Cons.prems(2) p by simp
qed

lemma iteration_body_result:
  assumes "length ss = length pfl" and "iteration_body equipments pfl ac ss = Inr ss'"
  shows "\<exists>prev. ss' = normalizeStreamCompositions prev ac \<and> length prev = length pfl"
proof -
  have len: "length (applyMassBalanceClosure ss pfl ac) = length pfl"
    using assms(1) by simp
  obtain ss1 where f:
    "fold (\<lambda>equipment acc. case acc of Inl e \<Rightarrow> Inl e
             | Inr ss \<Rightarrow> process_equipment pfl ac equipment ss) equipments
          (Inr (applyMassBalanceClosure ss pfl ac)) = Inr ss1"
    and r: "ss' = normalizeStreamCompositions (applyGlobalMassBalanceWithClosure ss1 pfl ac) ac"
    using assms(2) unfolding iteration_body_def by (auto split: sum.splits)
  have "length ss1 = length pfl"
    using fold_process_equipment_length [OF len f] .
  then show ?thesis
    using r by (intro exI [of _ "applyGlobalMassBalanceWithClosure ss1 pfl ac"]) simp
qed

lemma iteration_body_total:
  assumes "length ss = length pfl" and "\<forall>equipment \<in> set equipments. array_safe equipment"
  shows "\<exists>ss'. iteration_body equipments pfl ac ss = Inr ss'"
proof -
  have "length (applyMassBalanceClosure ss pfl ac) = length pfl"
    using assms(1) by simp
  then obtain ss1 where
    "fold (\<lambda>equipment acc. case acc of Inl e \<Rightarrow> Inl e
             | Inr ss \<Rightarrow> process_equipment pfl ac equipment ss) equipments
          (Inr (applyMassBalanceClosure ss pfl ac)) = Inr ss1"
    using fold_process_equipment_total assms(2) by blast
  then show ?thesis
    unfolding iteration_body_def by simp
qed

lemma solve_loop_result:
  assumes "length ss = length pfl"
    and "solve_loop eqs pfl ac maxIt tol iteration ss = Inr (c, it, out)"
  shows "length out = length pfl
     \<and> iteration \<le> it \<and> it \<le> max iteration maxIt
     \<and> (c \<longrightarrow> iteration < it \<and> fst (checkConvergence out pfl ac tol))
     \<and> (\<not> c \<longrightarrow> it = max iteration maxIt
                 \<and> (iteration < it \<longrightarrow> \<not> fst (checkConvergence out pfl ac tol)))
     \<and> (it = iteration \<longrightarrow> out = ss)
     \<and> (iteration < it \<longrightarrow> (\<exists>prev. out = normalizeStreamCompositions prev ac))"
  using assms
proof (induction eqs pfl ac maxIt tol iteration ss rule: solve_loop.induct)
  case (1 eqs pfl ac maxIt tol iteration ss)
  show ?case
  proof (cases "iteration < maxIt")
    case False
    then have "solve_loop eqs pfl ac maxIt tol iteration ss = Inr (False, iteration, ss)"
      by (subst solve_loop.simps) simp
    then show ?thesis
      using "1.prems" False by (auto simp: max_def)
  next
    case True
    show ?thesis
    proof (cases "iteration_body eqs pfl ac ss")
      case (Inl e)
      then have "solve_loop eqs pfl ac maxIt tol iteration ss = Inl e"
        using True by (subst solve_loop.simps) simp
      then show ?thesis using "1.prems"(2) by simp
    next
      case (Inr ss1)
      obtain prev where prev: "ss1 = normalizeStreamCompositions prev ac"
        and len: "length prev = length pfl"
        using iteration_body_result [OF "1.prems"(1) Inr] by blast
      have len1: "length ss1 = length pfl"
        using prev len by simp
      show ?thesis
      proof (cases "fst (checkConvergence ss1 pfl ac tol)")
        case conv: True
        have "solve_loop eqs pfl ac maxIt tol iteration ss = Inr (True, iteration + 1, ss1)"
          using True Inr conv by (subst solve_loop.simps) simp
        then have "c = True" "it = iteration + 1" "out = ss1"
          using "1.prems"(2) by simp_all
        then show ?thesis
          using True conv len1 prev by (auto simp: max_def)
      next
        case nconv: False
        have eq: "solve_loop eqs pfl ac maxIt tol iteration ss
                    = solve_loop eqs pfl ac maxIt tol (iteration + 1) ss1"
          using True Inr nconv by (subst solve_loop.simps) simp
        have r: "solve_loop eqs pfl ac maxIt tol (iteration + 1) ss1 = Inr (c, it, out)"
          using "1.prems"(2) eq by simp
        have p: "length out = length pfl" "iteration + 1 \<le> it" "it \<le> max (iteration + 1) maxIt"
            "c \<longrightarrow> iteration + 1 < it \<and> fst (checkConvergence out pfl ac tol)"
            "\<not> c \<longrightarrow> it = max (iteration + 1) maxIt
                   \<and> (iteration + 1 < it \<longrightarrow> \<not> fst (checkConvergence out pfl ac tol))"
            "it = iteration + 1 \<longrightarrow> out = ss1"
            "iteration + 1 < it \<longrightarrow> (\<exists>prev. out = normalizeStreamCompositions prev ac)"
          using "1.IH" [OF True Inr nconv len1 r] by simp_all
        have "it = iteration + 1 \<or> iteration + 1 < it"
          using p(2) by linarith
        then have tail: "(\<not> c \<longrightarrow> \<not> fst (checkConvergence out pfl ac tol))
                  \<and> (\<exists>prev. out = normalizeStreamCompositions prev ac)"
          using p(4,5,6,7) nconv prev by blast
        show ?thesis
          using p True tail by (auto simp: max_def)
      qed
    qed
  qed
qed

lemma solve_loop_total:
  assumes "length ss = length pfl" and "\<forall>equipment \<in> set eqs. array_safe equipment"
  shows "\<exists>r. solve_loop eqs pfl ac maxIt tol iteration ss = Inr r"
  using assms
proof (induction eqs pfl ac maxIt tol iteration ss rule: solve_loop.induct)
  case (1 eqs pfl ac maxIt tol iteration ss)
  show ?case
  proof (cases "iteration < maxIt")
    case False
    then show ?thesis by (subst solve_loop.simps) auto
  next
    case True
    obtain ss1 where body: "iteration_body eqs pfl ac ss = Inr ss1"
      using iteration_body_total [OF "1.prems"] by blast
    have len1: "length ss1 = length pfl"
      using iteration_body_result [OF "1.prems"(1) body] by auto
    show ?thesis
    proof (cases "fst (checkConvergence ss1 pfl ac tol)")
      case conv: True
      then show ?thesis
        using True body by (subst solve_loop.simps) auto
    next
      case nconv: False
      have "solve_loop eqs pfl ac maxIt tol iteration ss
              = solve_loop eqs pfl ac maxIt tol (iteration + 1) ss1"
        using True body nconv by (subst solve_loop.simps) simp
      then show ?thesis
        using "1.IH" [OF True body nconv len1 "1.prems"(2)] by simp
    qed
  qed
qed

lemma solver_total:
  assumes "\<forall>equipment \<in> set equipments. array_safe equipment"
  shows "\<exists>r. solveIterativeMassBalance equipments flowLines mineralComponents maxIterations tolerance
               = Inr r"
proof -
  let ?ac = "filter isActive mineralComponents"
  let ?pfl = "propagateStreamData flowLines mineralComponents"
  let ?init = "map (\<lambda>fl. convertToDetailedStream fl ?ac) ?pfl"
  have "length ?init = length ?pfl" by simp
  then obtain r where
    "solve_loop equipments ?pfl ?ac maxIterations tolerance 0 ?init = Inr r"
    using solve_loop_total [OF _ assms] by blast
  then show ?thesis
    by (simp add: solveIterativeMassBalance_def Let_def)
qed

lemma solver_result:
  assumes "solveIterativeMassBalance equipments flowLines mineralComponents maxIterations tolerance = Inr r"
  defines "ac \<equiv> filter isActive mineralComponents"
  shows "propagatedFlowLines r = propagateStreamData flowLines mineralComponents"
    and "length (streams_res r) = length (propagatedFlowLines r)"
    and "iterations (iterativeResult r) \<le> maxIterations"
    and "converged (iterativeResult r) \<Longrightarrow>
           0 < iterations (iterativeResult r)
           \<and> fst (checkConvergence (streams_res r) (propagatedFlowLines r) ac tolerance)"
    and "\<not> converged (iterativeResult r) \<Longrightarrow>
           iterations (iterativeResult r) = maxIterations
           \<and> (0 < maxIterations \<longrightarrow>
                \<not> fst (checkConvergence (streams_res r) (propagatedFlowLines r) ac tolerance))"
    and "0 < iterations (iterativeResult r) \<Longrightarrow>
           \<exists>prev. streams_res r = normalizeStreamCompositions prev ac"
    and "componentErrors (iterativeResult r)
           = calculateComponentErrors (streams_res r) (propagatedFlowLines r) ac"
    and "maxError (iterativeResult r)
           = math_max (map snd (calculateComponentErrors (streams_res r) (propagatedFlowLines r) ac))"
proof -
  let ?pfl = "propagateStreamData flowLines mineralComponents"
  let ?init = "map (\<lambda>fl. convertToDetailedStream fl ac) ?pfl"
  have len: "length ?init = length ?pfl" by simp
  obtain c it out where
    loop: "solve_loop equipments ?pfl ac maxIterations tolerance 0 ?init = Inr (c, it, out)"
  proof (cases "solve_loop equipments ?pfl ac maxIterations tolerance 0 ?init")
    case (Inl e)
    then have "solveIterativeMassBalance equipments flowLines mineralComponents maxIterations tolerance
                 = Inl e"
      by (simp add: solveIterativeMassBalance_def Let_def ac_def)
    then show ?thesis using assms(1) by simp
  next
    case (Inr res)
    then show ?thesis using that by (cases res) auto
  qed
  have "r = \<lparr> streams_res = out,
              iterativeResult =
                \<lparr> converged = c, iterations = it,
                  globalError = (if length out > 0 then calculateGlobalError out ?pfl else 0),
                  componentErrors = calculateComponentErrors out ?pfl ac,
                  maxError = math_max (map snd (calculateComponentErrors out ?pfl ac)),
                  coherenceIssues = filter is_issue (evaluateCoherence out ac) \<rparr>,
              coherenceReport = evaluateCoherence out ac,
              propagatedFlowLines = ?pfl \<rparr>"
    using assms(1) loop by (simp add: solveIterativeMassBalance_def Let_def ac_def)
  then have r: "streams_res r = out" "converged (iterativeResult r) = c"
      "iterations (iterativeResult r) = it" "propagatedFlowLines r = ?pfl"
      "componentErrors (iterativeResult r) = calculateComponentErrors out ?pfl ac"
      "maxError (iterativeResult r) = math_max (map snd (calculateComponentErrors out ?pfl ac))"
    by simp_all
  have p: "length out = length ?pfl" "it \<le> max 0 maxIterations"
      "c \<longrightarrow> 0 < it \<and> fst (checkConvergence out ?pfl ac tolerance)"
      "\<not> c \<longrightarrow> it = max 0 maxIterations \<and> (0 < it \<longrightarrow> \<not> fst (checkConvergence out ?pfl ac tolerance))"
      "0 < it \<longrightarrow> (\<exists>prev. out = normalizeStreamCompositions prev ac)"
    using solve_loop_result [OF len loop] by simp_all
  show "propagatedFlowLines r = propagateStreamData flowLines mineralComponents"
    using r by simp
  show "length (streams_res r) = length (propagatedFlowLines r)"
    using r p by simp
  show "iterations (iterativeResult r) \<le> maxIterations"
    using r p by simp
  show "converged (iterativeResult r) \<Longrightarrow>
           0 < iterations (iterativeResult r)
           \<and> fst (checkConvergence (streams_res r) (propagatedFlowLines r) ac tolerance)"
    using r p by simp
  show "\<not> converged (iterativeResult r) \<Longrightarrow>
           iterations (iterativeResult r) = maxIterations
           \<and> (0 < maxIterations \<longrightarrow>
                \<not> fst (checkConvergence (streams_res r) (propagatedFlowLines r) ac tolerance))"
    using r p by simp
  show "0 < iterations (iterativeResult r) \<Longrightarrow>
           \<exists>prev. streams_res r = normalizeStreamCompositions prev ac"
    using r p by simp
  show "componentErrors (iterativeResult r)
           = calculateComponentErrors (streams_res r) (propagatedFlowLines r) ac"
    using r by simp
  show "maxError (iterativeResult r)
           = math_max (map snd (calculateComponentErrors (streams_res r) (propagatedFlowLines r) ac))"
    using r by simp
qed

section \<open>Termination and the reported state\<close>

text \<open>
  Claim C5. The loop of the solver is bounded by \<open>maxIterations\<close> and the solver has no
  \<open>throw\<close> of its own, but the transfer function of a mixer without \<open>splits\<close> builds its
  default splits with \<open>Array(numOutputs)\<close>, which throws a \<open>RangeError\<close> for a number of
  outputs that is negative or fractional, and the solver catches nothing. On the example
  circuit with a mixer of -1 outputs the solver returns no result. The array is not
  needed: the loop over the outputs supplies the default for each split it reads
  (\<open>splits[i] || 100/numOutputs\<close>), \<open>calculateEquipmentBalance\<close> computes the same mixer
  without it, and with a \<open>splits\<close> array of its own the same mixer lets the solver return,
  converged after one iteration.
\<close>

theorem solver_raises_on_mixer_outputs:
  "type_eq ex_bad_mixer = ''mixer''
   \<and> numberOfOutputs (parameters ex_bad_mixer) = - 1
   \<and> splits (parameters ex_bad_mixer) = None
   \<and> solveIterativeMassBalance [ex_bad_mixer] [ex_feed, ex_product] [ex_fe] 50 0.001 = Inl RangeError
   \<and> numberOfOutputs (parameters ex_split_mixer) = - 1
   \<and> splits (parameters ex_split_mixer) = Some [100]
   \<and> (case solveIterativeMassBalance [ex_split_mixer] [ex_feed, ex_product] [ex_fe] 50 0.001 of
         Inl e \<Rightarrow> False
       | Inr r \<Rightarrow> converged (iterativeResult r) \<and> iterations (iterativeResult r) = 1)"
  by code_simp

text \<open>
  Where no mixer makes \<open>Array\<close> throw the solver is total. For every list of
  equipment in which no mixer without \<open>splits\<close> has a number of outputs that is negative,
  fractional or \<open>2^32\<close> and above (\<open>array_safe\<close>, asked of every equipment of the list, also
  of one that no flow line feeds and whose transfer function is never called), and for
  all flow lines, components, iteration cap and tolerance, \<open>solveIterativeMassBalance\<close>
  returns a result; the number of iterations is at most \<open>maxIterations\<close>; in both terminal
  states the result holds the current streams, one per flow line, and the component errors
  computed from them; \<open>converged\<close> is true only when the convergence check on the returned
  streams succeeded, and false with \<open>iterations = maxIterations\<close> when the cap was reached,
  the check on the returned streams having failed unless the cap is 0 (no check is made
  then, and \<open>converged\<close> is false whatever the streams hold). The iteration cap is a
  natural number.
\<close>

theorem solver_terminates_and_reports:
  assumes "\<forall>equipment \<in> set equipments. array_safe equipment"
  shows "\<exists>r. solveIterativeMassBalance equipments flowLines mineralComponents maxIterations tolerance
               = Inr r
     \<and> length (streams_res r) = length (propagatedFlowLines r)
     \<and> iterations (iterativeResult r) \<le> maxIterations
     \<and> (converged (iterativeResult r) \<longrightarrow>
          0 < iterations (iterativeResult r)
          \<and> fst (checkConvergence (streams_res r) (propagatedFlowLines r)
                   (filter isActive mineralComponents) tolerance))
     \<and> (\<not> converged (iterativeResult r) \<longrightarrow>
          iterations (iterativeResult r) = maxIterations
          \<and> (0 < maxIterations \<longrightarrow>
               \<not> fst (checkConvergence (streams_res r) (propagatedFlowLines r)
                        (filter isActive mineralComponents) tolerance)))
     \<and> componentErrors (iterativeResult r)
         = calculateComponentErrors (streams_res r) (propagatedFlowLines r)
             (filter isActive mineralComponents)"
proof -
  obtain r where
    r: "solveIterativeMassBalance equipments flowLines mineralComponents maxIterations tolerance = Inr r"
    using solver_total [OF assms] by blast
  show ?thesis
    by (intro exI [of _ r] conjI impI) (use r solver_result(2,3,4,5,7) [OF r] in simp_all)
qed

text \<open>The theorem on two runs with an equipment that no flow line mentions: one that
  converges in the first iteration and one that reaches the cap with an error of 50 %.\<close>

theorem solver_terminates_witness:
  "is_array_length (jsor (numberOfOutputs (parameters ex_ghost)) 1)
   \<and> (case solveIterativeMassBalance [ex_ghost] [ex_feed, ex_product] [ex_fe] 3 0.001 of
      Inl e \<Rightarrow> False
    | Inr r \<Rightarrow> converged (iterativeResult r) \<and> iterations (iterativeResult r) = 1
              \<and> iterations (iterativeResult r) \<le> 3
              \<and> fst (checkConvergence (streams_res r) (propagatedFlowLines r) (filter isActive [ex_fe]) 0.001))
   \<and> (case solveIterativeMassBalance [ex_ghost] [ex_feed, ex_thin_product] [ex_fe] 1 0.001 of
      Inl e \<Rightarrow> False
    | Inr r \<Rightarrow> \<not> converged (iterativeResult r) \<and> iterations (iterativeResult r) = 1
              \<and> componentErrors (iterativeResult r) = [(''fe'', 50)]
              \<and> \<not> fst (checkConvergence (streams_res r) (propagatedFlowLines r) (filter isActive [ex_fe]) 0.001))"
proof -
  have safe: "\<forall>equipment \<in> set [ex_ghost]. array_safe equipment"
    by (simp add: array_safe_def ex_ghost_def is_array_length_def jsor_def)
  have a: "case solveIterativeMassBalance [ex_ghost] [ex_feed, ex_product] [ex_fe] 3 0.001 of
      Inl e \<Rightarrow> False
    | Inr r \<Rightarrow> converged (iterativeResult r) \<and> iterations (iterativeResult r) = 1"
    by code_simp
  have b: "case solveIterativeMassBalance [ex_ghost] [ex_feed, ex_thin_product] [ex_fe] 1 0.001 of
      Inl e \<Rightarrow> False
    | Inr r \<Rightarrow> \<not> converged (iterativeResult r) \<and> componentErrors (iterativeResult r) = [(''fe'', 50)]"
    by code_simp
  obtain r1 where r1: "solveIterativeMassBalance [ex_ghost] [ex_feed, ex_product] [ex_fe] 3 0.001 = Inr r1"
    and l1: "iterations (iterativeResult r1) \<le> 3"
    and c1: "converged (iterativeResult r1) \<longrightarrow>
          0 < iterations (iterativeResult r1)
          \<and> fst (checkConvergence (streams_res r1) (propagatedFlowLines r1)
                   (filter isActive [ex_fe]) 0.001)"
    using solver_terminates_and_reports [OF safe, of "[ex_feed, ex_product]" "[ex_fe]" 3 "0.001"]
    by (elim exE conjE) (rule that; assumption)
  obtain r2 where r2: "solveIterativeMassBalance [ex_ghost] [ex_feed, ex_thin_product] [ex_fe] 1 0.001 = Inr r2"
    and c2: "\<not> converged (iterativeResult r2) \<longrightarrow>
          iterations (iterativeResult r2) = 1
          \<and> (0 < (1::nat) \<longrightarrow>
               \<not> fst (checkConvergence (streams_res r2) (propagatedFlowLines r2)
                        (filter isActive [ex_fe]) 0.001))"
    using solver_terminates_and_reports [OF safe, of "[ex_feed, ex_thin_product]" "[ex_fe]" 1 "0.001"]
    by (elim exE conjE) (rule that; assumption)
  have a1: "converged (iterativeResult r1) \<and> iterations (iterativeResult r1) = 1"
    using a unfolding r1 by simp
  have b1: "\<not> converged (iterativeResult r2) \<and> componentErrors (iterativeResult r2) = [(''fe'', 50)]"
    using b unfolding r2 by simp
  have len: "is_array_length (jsor (numberOfOutputs (parameters ex_ghost)) 1)"
    by (simp add: ex_ghost_def is_array_length_def jsor_def)
  show ?thesis
    unfolding r1 r2 using len a1 b1 c1 c2 l1 by simp
qed

section \<open>Mixing, and the exceptions of the module\<close>

text \<open>
  \<open>mixStreams\<close> throws on the empty list and on no other: a list of one stream yields a
  copy of the stream, a longer list a mixed stream whose flow rate, solid flow and water
  flow are the sums over the list times the efficiency.
\<close>

lemma mixStreams_throws_iff_empty:
  "(\<exists>e. mixStreams mstreams efficiency = Inl e) \<longleftrightarrow> mstreams = []"
  by (simp add: mixStreams_def Let_def)

lemma mixStreams_returns:
  "mixStreams [] efficiency = Inl ''No streams to mix''"
  "mixStreams [stream] efficiency = Inr stream"
  "2 \<le> length mstreams \<Longrightarrow>
     \<exists>mixed. mixStreams mstreams efficiency = Inr mixed
       \<and> flowRate_ms mixed = sum_list (map flowRate_ms mstreams) * (efficiency / 100)
       \<and> solidFlow_ms mixed
           = Some (sum_list (map (\<lambda>stream. flowRate_ms stream * solidPercent_ms stream / 100) mstreams)
                   * (efficiency / 100))
       \<and> waterFlow_ms mixed
           = Some (sum_list (map (\<lambda>stream. jsor_opt (waterFlow_ms stream) 0) mstreams)
                   * (efficiency / 100))"
  by (auto simp: mixStreams_def Let_def sum_on_sum_list)

text \<open>
  Claim C10. \<open>mixStreams\<close> holds the only \<open>throw\<close> of the module and behaves as the claim
  says: it throws on the empty list, returns the stream of a list of one, and mixes a
  longer list. It is not the only exported operation that raises an exception, though:
  \<open>solveIterativeMassBalance\<close> lets the \<open>RangeError\<close> of \<open>Array(numOutputs)\<close> escape, here
  for a mixer without \<open>splits\<close> whose number of outputs is 2.5.
\<close>

theorem solver_raises_besides_mixStreams:
  "mixStreams [] 99 = Inl ''No streams to mix''
   \<and> mixStreams [ex_stream] 99 = Inr ex_stream
   \<and> mixStreams [ex_stream, ex_slurry] 99
       = Inr \<lparr> flowRate_ms = 396, solidPercent_ms = 55, density_ms = 28 / 13,
               particleSize_ms = 1200 / 11,
               mineralContent_ms = [(''fe'', 95 / 4), (''si'', 15 / 2)],
               waterFlow_ms = Some (297 / 2), solidFlow_ms = Some (1089 / 5),
               components_ms = Some [(''fe'', 5000 / 363)] \<rparr>
   \<and> type_eq ex_fraction_mixer = ''mixer''
   \<and> numberOfOutputs (parameters ex_fraction_mixer) = 5 / 2
   \<and> splits (parameters ex_fraction_mixer) = None
   \<and> solveIterativeMassBalance [ex_fraction_mixer] [ex_feed, ex_product] [ex_fe] 50 0.001
       = Inl RangeError"
  by code_simp

section \<open>The convergence check\<close>

lemma foldl_max_ge:
  "y \<le> foldl max y ys \<and> (\<forall>x \<in> set ys. x \<le> foldl max y (ys :: real list))"
proof (induction ys arbitrary: y)
  case Nil
  then show ?case by simp
next
  case (Cons z zs)
  have "max y z \<le> foldl max (max y z) zs" "\<forall>x \<in> set zs. x \<le> foldl max (max y z) zs"
    using Cons.IH [of "max y z"] by simp_all
  moreover have "y \<le> max y z" "z \<le> max y z"
    by simp_all
  ultimately show ?case
    by (auto intro: order_trans [of _ "max y z"])
qed

lemma math_max_ge:
  assumes "x \<in> set xs"
  shows "\<exists>m. math_max xs = Num m \<and> x \<le> m"
proof (cases xs)
  case Nil
  then show ?thesis using assms by simp
next
  case (Cons y ys)
  then have "x \<le> foldl max y ys"
    using foldl_max_ge [of y ys] assms by auto
  then show ?thesis
    using Cons by (simp add: math_max_def)
qed

lemma js_less_math_max:
  "js_less (math_max xs) t \<Longrightarrow> x \<in> set xs \<Longrightarrow> x < t"
  using math_max_ge [of x xs] by (auto simp: js_less_def)

lemma obj_get_in_values: "obj_get m k = Some v \<Longrightarrow> v \<in> set (map snd m)"
  unfolding obj_get_def by (auto dest: map_of_SomeD intro: rev_image_eqI)

lemma calculateComponentErrors_get:
  assumes "component \<in> set activeComponents"
  shows "obj_get (calculateComponentErrors ss pfl activeComponents) (id_mc component)
           = Some (if input_mass (id_mc component) ss pfl > 0
                   then \<bar>input_mass (id_mc component) ss pfl - output_mass (id_mc component) ss pfl\<bar>
                          / input_mass (id_mc component) ss pfl * 100
                   else 0)"
proof -
  let ?h = "\<lambda>k. if input_mass k ss pfl > 0
                 then \<bar>input_mass k ss pfl - output_mass k ss pfl\<bar> / input_mass k ss pfl * 100 else 0"
  have "calculateComponentErrors ss pfl activeComponents
          = fold (\<lambda>c acc. obj_set (id_mc c) (?h (id_mc c)) acc) activeComponents []"
    unfolding calculateComponentErrors_def Let_def input_mass_def output_mass_def by (rule refl)
  then show ?thesis
    using assms by (simp add: obj_get_fold_set [of id_mc ?h])
qed

lemma checkConvergence_bound:
  assumes "fst (checkConvergence ss pfl activeComponents tolerance)"
    and "component \<in> set activeComponents"
  shows "(if input_mass (id_mc component) ss pfl > 0
          then \<bar>input_mass (id_mc component) ss pfl - output_mass (id_mc component) ss pfl\<bar>
                 / input_mass (id_mc component) ss pfl * 100
          else 0) < tolerance"
proof -
  let ?errors = "calculateComponentErrors ss pfl activeComponents"
  have "js_less (math_max (map snd ?errors @ [0])) tolerance"
    using assms(1) by (simp add: checkConvergence_def Let_def)
  moreover have "(if input_mass (id_mc component) ss pfl > 0
          then \<bar>input_mass (id_mc component) ss pfl - output_mass (id_mc component) ss pfl\<bar>
                 / input_mass (id_mc component) ss pfl * 100
          else 0) \<in> set (map snd ?errors @ [0])"
    using obj_get_in_values [OF calculateComponentErrors_get [OF assms(2), of ss pfl]] by simp
  ultimately show ?thesis
    by (rule js_less_math_max)
qed

lemma checkConvergence_tolerance_positive:
  "fst (checkConvergence ss pfl activeComponents tolerance) \<Longrightarrow> 0 < tolerance"
  using js_less_math_max [of "map snd (calculateComponentErrors ss pfl activeComponents) @ [0]" tolerance 0]
  by (simp add: checkConvergence_def Let_def)

lemma checkConvergence_no_components:
  "fst (checkConvergence ss pfl [] tolerance) \<longleftrightarrow> 0 < tolerance"
  by (simp add: checkConvergence_def calculateComponentErrors_def math_max_def js_less_def)

section \<open>The closure invariant of a converged run\<close>

text \<open>
  Claim C1, as amended. If \<open>solveIterativeMassBalance\<close> returns with \<open>converged = true\<close>, then
  for every active component whose mass summed over the returned input-class streams is
  not zero, \<open>|input - output| / input \<times> 100\<close> over the returned streams is strictly less than
  the tolerance. (For a component whose input sum is not positive the code sets the error
  to 0.)
\<close>

theorem converged_closure_invariant:
  assumes "solveIterativeMassBalance equipments flowLines mineralComponents maxIterations tolerance = Inr r"
    and "converged (iterativeResult r)"
    and "component \<in> set mineralComponents" and "isActive component"
    and "input_mass (id_mc component) (streams_res r) (propagatedFlowLines r) \<noteq> 0"
  shows "\<bar>input_mass (id_mc component) (streams_res r) (propagatedFlowLines r)
           - output_mass (id_mc component) (streams_res r) (propagatedFlowLines r)\<bar>
         / input_mass (id_mc component) (streams_res r) (propagatedFlowLines r) * 100 < tolerance"
proof -
  let ?in = "input_mass (id_mc component) (streams_res r) (propagatedFlowLines r)"
  let ?out = "output_mass (id_mc component) (streams_res r) (propagatedFlowLines r)"
  have act: "component \<in> set (filter isActive mineralComponents)"
    using assms(3,4) by simp
  have chk: "fst (checkConvergence (streams_res r) (propagatedFlowLines r)
                    (filter isActive mineralComponents) tolerance)"
    using solver_result(4) [OF assms(1,2)] by simp
  have bound: "(if ?in > 0 then \<bar>?in - ?out\<bar> / ?in * 100 else 0) < tolerance"
    using checkConvergence_bound [OF chk act] .
  have tol: "0 < tolerance"
    using checkConvergence_tolerance_positive [OF chk] .
  show ?thesis
  proof (cases "?in > 0")
    case True
    then show ?thesis using bound by simp
  next
    case False
    then have neg: "?in < 0" using assms(5) by simp
    have "\<bar>?in - ?out\<bar> / ?in * 100 \<le> 0"
      using neg by (auto simp: divide_le_0_iff)
    then show ?thesis using tol by linarith
  qed
qed

text \<open>The theorem on the example circuit, which converges with 700 t/h of iron in and out.\<close>

theorem converged_closure_witness:
  "\<exists>r. solveIterativeMassBalance [] [ex_feed, ex_product] [ex_fe] 50 0.001 = Inr r
     \<and> converged (iterativeResult r)
     \<and> ex_fe \<in> set [ex_fe] \<and> isActive ex_fe
     \<and> input_mass ''fe'' (streams_res r) (propagatedFlowLines r) = 700
     \<and> \<bar>input_mass ''fe'' (streams_res r) (propagatedFlowLines r)
           - output_mass ''fe'' (streams_res r) (propagatedFlowLines r)\<bar>
         / input_mass ''fe'' (streams_res r) (propagatedFlowLines r) * 100 < 0.001"
proof -
  have "\<forall>equipment \<in> set ([] :: Equipment list). array_safe equipment"
    by simp
  then obtain r where r: "solveIterativeMassBalance [] [ex_feed, ex_product] [ex_fe] 50 0.001 = Inr r"
    using solver_total by blast
  have "case solveIterativeMassBalance [] [ex_feed, ex_product] [ex_fe] 50 0.001 of
          Inl e \<Rightarrow> False
        | Inr r \<Rightarrow> converged (iterativeResult r)
                  \<and> input_mass ''fe'' (streams_res r) (propagatedFlowLines r) = 700"
    by code_simp
  then have c: "converged (iterativeResult r)"
    and i: "input_mass ''fe'' (streams_res r) (propagatedFlowLines r) = 700"
    unfolding r by simp_all
  have k: "id_mc ex_fe = ''fe''" "isActive ex_fe"
    by (simp_all add: ex_fe_def)
  have "\<bar>input_mass ''fe'' (streams_res r) (propagatedFlowLines r)
           - output_mass ''fe'' (streams_res r) (propagatedFlowLines r)\<bar>
         / input_mass ''fe'' (streams_res r) (propagatedFlowLines r) * 100 < 0.001"
    using converged_closure_invariant [OF r c, of ex_fe] k i by simp
  then show ?thesis
    using r c i k by simp
qed

text \<open>
  Claim C1 as stated fails where the input sum is zero. A circuit of a single product
  stream has no input-class stream: the run converges in its first iteration with 0 t/h
  of iron in and 350 t/h out.
\<close>

theorem converged_without_feed_counterexample:
  "case solveIterativeMassBalance [] [ex_product] [ex_fe] 50 0.001 of
     Inl e \<Rightarrow> False
   | Inr r \<Rightarrow> converged (iterativeResult r)
             \<and> ex_fe \<in> set [ex_fe] \<and> isActive ex_fe
             \<and> input_mass (id_mc ex_fe) (streams_res r) (propagatedFlowLines r) = 0
             \<and> output_mass (id_mc ex_fe) (streams_res r) (propagatedFlowLines r) = 350
             \<and> \<not> closure_invariant 0.001
                   (input_mass (id_mc ex_fe) (streams_res r) (propagatedFlowLines r))
                   (output_mass (id_mc ex_fe) (streams_res r) (propagatedFlowLines r))"
  by code_simp

section \<open>No active component\<close>

text \<open>
  Claim C9, as amended. If no component is active, \<open>maxIterations \<ge> 1\<close>, the tolerance is
  positive and no mixer makes \<open>Array\<close> throw (\<open>array_safe\<close>), then
  \<open>solveIterativeMassBalance\<close> returns after exactly one iteration with
  \<open>converged = true\<close>, whatever the flows of the circuit, with an empty \<open>componentErrors\<close>
  and a \<open>maxError\<close> of \<open>-Infinity\<close>.
\<close>

theorem no_active_component_converges_at_once:
  assumes "filter isActive mineralComponents = []"
    and "1 \<le> maxIterations"
    and "0 < tolerance"
    and "\<forall>equipment \<in> set equipments. array_safe equipment"
  shows "\<exists>r. solveIterativeMassBalance equipments flowLines mineralComponents maxIterations tolerance
               = Inr r
           \<and> converged (iterativeResult r)
           \<and> iterations (iterativeResult r) = 1
           \<and> componentErrors (iterativeResult r) = []
           \<and> maxError (iterativeResult r) = NegInfinity"
proof -
  let ?pfl = "propagateStreamData flowLines mineralComponents"
  let ?init = "map (\<lambda>fl. convertToDetailedStream fl []) ?pfl"
  have "length ?init = length ?pfl" by simp
  then obtain ss1 where body: "iteration_body equipments ?pfl [] ?init = Inr ss1"
    using iteration_body_total assms(4) by blast
  have chk: "fst (checkConvergence ss1 ?pfl [] tolerance)"
    using assms(3) by (simp add: checkConvergence_no_components)
  have loop: "solve_loop equipments ?pfl [] maxIterations tolerance 0 ?init = Inr (True, 1, ss1)"
    using assms(2) body chk by (subst solve_loop.simps) simp
  show ?thesis
    unfolding solveIterativeMassBalance_def Let_def assms(1) loop
    by (simp add: calculateComponentErrors_def math_max_def)
qed

text \<open>The theorem on the example circuit with its only component switched off.\<close>

theorem no_active_component_witness:
  "filter isActive [ex_fe \<lparr> isActive := False \<rparr>] = []
   \<and> (1::nat) \<le> 50 \<and> (0::real) < 0.001
   \<and> is_array_length (jsor (numberOfOutputs (parameters ex_ghost)) 1)
   \<and> (\<exists>r. solveIterativeMassBalance [ex_ghost] [ex_feed, ex_product] [ex_fe \<lparr> isActive := False \<rparr>] 50 0.001
               = Inr r
           \<and> converged (iterativeResult r)
           \<and> iterations (iterativeResult r) = 1
           \<and> componentErrors (iterativeResult r) = []
           \<and> maxError (iterativeResult r) = NegInfinity)"
proof -
  have a: "filter isActive [ex_fe \<lparr> isActive := False \<rparr>] = []"
    by simp
  have b: "(1::nat) \<le> 50" and c: "(0::real) < 0.001"
    by simp_all
  have d: "\<forall>equipment \<in> set [ex_ghost]. array_safe equipment"
    by (simp add: array_safe_def ex_ghost_def is_array_length_def jsor_def)
  have len: "is_array_length (jsor (numberOfOutputs (parameters ex_ghost)) 1)"
    by (simp add: ex_ghost_def is_array_length_def jsor_def)
  show ?thesis
    using no_active_component_converges_at_once [OF a b c d, of "[ex_feed, ex_product]"] a len
    by simp
qed

text \<open>
  Claim C9 as stated fails for a tolerance that is not positive: the check compares the
  maximum error, 0, strictly with the tolerance, so with tolerance 0 the run goes to the
  cap and reports \<open>converged = false\<close>.
\<close>

theorem zero_tolerance_counterexample:
  "filter isActive [ex_fe \<lparr> isActive := False \<rparr>] = []
   \<and> (1::nat) \<le> 2
   \<and> (case solveIterativeMassBalance [] [ex_feed, ex_product] [ex_fe \<lparr> isActive := False \<rparr>] 2 0 of
         Inl e \<Rightarrow> False
       | Inr r \<Rightarrow> \<not> converged (iterativeResult r) \<and> iterations (iterativeResult r) = 2)"
  by code_simp

section \<open>Normalised compositions\<close>

lemma jsor_opt_Some_zero [simp]: "jsor_opt (Some v) 0 = v"
  by (simp add: jsor_opt_def)

lemma totalPercentage_normalize_stream:
  "\<bar>totalPercentage ac (normalize_stream ac s) - 100\<bar> \<le> 0.01
   \<or> totalPercentage ac (normalize_stream ac s) \<le> 0"
proof (cases "totalPercentage ac s > 0 \<and> \<bar>totalPercentage ac s - 100\<bar> > 0.01")
  case False
  then have "normalize_stream ac s = s"
    by (auto simp: normalize_stream_def Let_def)
  then show ?thesis using False by auto
next
  case True
  define T where "T = totalPercentage ac s"
  have T: "T > 0 \<and> \<bar>T - 100\<bar> > 0.01"
    using True by (simp add: T_def)
  let ?p = "\<lambda>k. jsor_opt (obj_get (componentPercentages s) k) 0 * (100 / T)"
  let ?m = "\<lambda>k. jsor (solidFlow s) 0 * (?p k / 100)"
  let ?F = "fold (\<lambda>component acc.
                 (obj_set (id_mc component)
                    (jsor_opt (obj_get (componentPercentages s) (id_mc component)) 0 * (100 / T))
                    (fst acc),
                  obj_set (id_mc component)
                    (jsor (solidFlow s) 0
                     * (jsor_opt (obj_get (componentPercentages s) (id_mc component)) 0 * (100 / T) / 100))
                    (snd acc)))
               ac ([], [])"
  have eq: "normalize_stream ac s = s\<lparr> componentPercentages := fst ?F, componentMass := snd ?F \<rparr>"
    unfolding normalize_stream_def Let_def T_def [symmetric] by (simp only: T if_True simp_thms)
  have maps: "?F = (fold (\<lambda>c acc. obj_set (id_mc c) (?p (id_mc c)) acc) ac [],
                    fold (\<lambda>c acc. obj_set (id_mc c) (?m (id_mc c)) acc) ac [])"
    using fold_pair_split [of "\<lambda>c. obj_set (id_mc c) (?p (id_mc c))"
                              "\<lambda>c. obj_set (id_mc c) (?m (id_mc c))" ac "[]" "[]"]
    by simp
  have pcts: "componentPercentages (normalize_stream ac s)
                = fold (\<lambda>c acc. obj_set (id_mc c) (?p (id_mc c)) acc) ac []"
    unfolding eq maps by simp
  have each: "jsor_opt (obj_get (componentPercentages (normalize_stream ac s)) (id_mc c)) 0 = ?p (id_mc c)"
    if "c \<in> set ac" for c
    unfolding pcts using that by (subst obj_get_fold_set [of id_mc ?p]) simp
  have "totalPercentage ac (normalize_stream ac s) = sum_list (map (\<lambda>c. ?p (id_mc c)) ac)"
    unfolding totalPercentage_def sum_on_sum_list
    by (rule arg_cong [of _ _ sum_list]) (simp add: each)
  also have "\<dots> = sum_list (map (\<lambda>c. jsor_opt (obj_get (componentPercentages s) (id_mc c)) 0) ac)
                      * (100 / T)"
    by (rule sum_list_mult_const)
  also have "\<dots> = T * (100 / T)"
    by (simp add: T_def totalPercentage_def sum_on_sum_list)
  also have "\<dots> = 100"
    using T by simp
  finally show ?thesis by simp
qed

text \<open>
  Claim C7, as amended. In the converged result, for every stream the sum of
  \<open>componentPercentages\<close> over the active components is within 0.1 of 100, except for the
  streams whose sum is not positive: normalisation leaves those as they are, whatever
  their solid flow.
\<close>

theorem converged_compositions_normalised:
  assumes "solveIterativeMassBalance equipments flowLines mineralComponents maxIterations tolerance = Inr r"
    and "converged (iterativeResult r)"
    and "stream \<in> set (streams_res r)"
  shows "\<bar>totalPercentage (filter isActive mineralComponents) stream - 100\<bar> \<le> 0.1
         \<or> totalPercentage (filter isActive mineralComponents) stream \<le> 0"
proof -
  have "0 < iterations (iterativeResult r)"
    using solver_result(4) [OF assms(1,2)] by simp
  then obtain prev where
    "streams_res r = normalizeStreamCompositions prev (filter isActive mineralComponents)"
    using solver_result(6) [OF assms(1)] by blast
  then obtain s where "stream = normalize_stream (filter isActive mineralComponents) s"
    using assms(3) by (auto simp: normalizeStreamCompositions_def)
  then show ?thesis
    using totalPercentage_normalize_stream [of "filter isActive mineralComponents" s] by auto
qed

text \<open>The theorem on the product of the example circuit, whose percentages sum to 100.\<close>

theorem converged_compositions_witness:
  "\<exists>r. solveIterativeMassBalance [] [ex_feed, ex_product] [ex_fe] 50 0.001 = Inr r
     \<and> converged (iterativeResult r)
     \<and> streams_res r ! 1 \<in> set (streams_res r)
     \<and> totalPercentage (filter isActive [ex_fe]) (streams_res r ! 1) = 100"
proof -
  have "\<forall>equipment \<in> set ([] :: Equipment list). array_safe equipment"
    by simp
  then obtain r where r: "solveIterativeMassBalance [] [ex_feed, ex_product] [ex_fe] 50 0.001 = Inr r"
    using solver_total by blast
  have "case solveIterativeMassBalance [] [ex_feed, ex_product] [ex_fe] 50 0.001 of
          Inl e \<Rightarrow> False
        | Inr r \<Rightarrow> converged (iterativeResult r) \<and> length (streams_res r) = 2
                  \<and> 0 < totalPercentage (filter isActive [ex_fe]) (streams_res r ! 1)
                  \<and> totalPercentage (filter isActive [ex_fe]) (streams_res r ! 1) = 100"
    by code_simp
  then have c: "converged (iterativeResult r)" and l: "length (streams_res r) = 2"
    and t: "totalPercentage (filter isActive [ex_fe]) (streams_res r ! 1) = 100"
    unfolding r by simp_all
  have m: "streams_res r ! 1 \<in> set (streams_res r)"
    using l by simp
  have "\<bar>totalPercentage (filter isActive [ex_fe]) (streams_res r ! 1) - 100\<bar> \<le> 0.1
         \<or> totalPercentage (filter isActive [ex_fe]) (streams_res r ! 1) \<le> 0"
    using converged_compositions_normalised [OF r c m] .
  then show ?thesis
    using r c m t by blast
qed

text \<open>
  Claim C7 as stated fails on a stream with solids that holds none of the active
  component: its percentages sum to 0 and its solid flow is 700 t/h.
\<close>

theorem barren_stream_counterexample:
  "case solveIterativeMassBalance [] [ex_barren_feed, ex_barren_product] [ex_fe] 50 0.001 of
     Inl e \<Rightarrow> False
   | Inr r \<Rightarrow> converged (iterativeResult r)
             \<and> length (streams_res r) = 2
             \<and> solidFlow (streams_res r ! 0) = 700
             \<and> totalPercentage (filter isActive [ex_fe]) (streams_res r ! 0) = 0
             \<and> \<not> \<bar>totalPercentage (filter isActive [ex_fe]) (streams_res r ! 0) - 100\<bar> \<le> 0.1"
  by code_simp

section \<open>Component masses under the closures\<close>

lemma distinct_inputIndices [simp]: "distinct (inputIndices fls)"
  by (simp add: inputIndices_def)



lemma inputIndices_less: "idx \<in> set (inputIndices fls) \<Longrightarrow> idx < length fls"
  by (simp add: inputIndices_def)






lemma mass_at_update_each_other:
  assumes "\<And>s. obj_get (componentMass (f s)) cid = obj_get (componentMass s) cid"
  shows "mass_at cid (update_each f idxs ss) idx = mass_at cid ss idx"
  unfolding update_each_def
proof (induction idxs arbitrary: ss)
  case Nil
  then show ?case by simp
next
  case (Cons j js)
  have "mass_at cid (ss[j := f (ss ! j)]) idx = mass_at cid ss idx" if "j < length ss"
    using that assms by (cases "idx = j") (simp_all add: mass_at_def index_at_def)
  then show ?case
    using Cons.IH by simp
qed

lemma mass_at_flow_closure [simp]:
  "mass_at cid (flow_closure inIdx outIdx ss) idx = mass_at cid ss idx"
  by (simp add: flow_closure_def Let_def mass_at_update_each_other)












section \<open>Flow rates under the closures\<close>










section \<open>Equal shares in the arithmetic of the engine\<close>


section \<open>A closure on conflicting totals\<close>




text \<open>
  Equal shares need not add up to the amount exactly in the arithmetic of the engine: six
  shares of 1000 are 166.66666666666666 each, \<open>2^-44\<close> short of 1000 together, and the
  rounded sum of the six is 999.9999999999999.
\<close>

lemma six_shares_rounded:
  "share binary64 1000 6 = 5864062014805333 / 2 ^ 45
   \<and> 6 * share binary64 1000 6 = 1000 - 1 / 2 ^ 44
   \<and> sum_rounded binary64 (replicate 6 (share binary64 1000 6)) = 1000 - 1 / 2 ^ 43"
  by code_simp

section \<open>Propagation: the loops over filtered elements as maps\<close>

lemma indexed_snoc: "indexed (xs @ [x]) = indexed xs @ [(length xs, x)]"
  by (simp add: indexed_def)

lemma fold_indexed_writes:
  "fold (\<lambda>jf st. if q (snd jf) then ((fst st)[fst jf := g (snd jf)], snd st + 1) else st)
        (filter (\<lambda>jf. p (snd jf)) (indexed xs)) (xs @ rest, c)
     = (map (\<lambda>x. if p x \<and> q x then g x else x) xs @ rest,
        c + length (filter (\<lambda>x. p x \<and> q x) xs))"
proof (induction xs arbitrary: rest rule: rev_induct)
  case Nil
  then show ?case by (simp add: indexed_def)
next
  case (snoc x xs)
  have len: "length (map (\<lambda>x. if p x \<and> q x then g x else x) xs) = length xs"
    by simp
  show ?case
    using snoc [of "x # rest"]
    by (simp add: indexed_snoc list_update_append len [symmetric] del: length_map)
qed

lemma fold_indexed_writes':
  "fold (\<lambda>jf st. if q (snd jf) then ((fst st)[fst jf := g (snd jf)], snd st + 1) else st)
        (filter (\<lambda>jf. p (snd jf)) (indexed xs)) (xs, 0)
     = (map (\<lambda>x. if p x \<and> q x then g x else x) xs, length (filter (\<lambda>x. p x \<and> q x) xs))"
  using fold_indexed_writes [of q g p xs "[]" 0] by simp

lemma case1_map:
  "case1 flowLine arr =
     (if is_feed flowLine
      then (map (\<lambda>fl. if needs_forward flowLine fl then copy_forward fl flowLine else fl) arr,
            length (filter (needs_forward flowLine) arr))
      else (arr, 0))"
  unfolding case1_def Let_def is_feed_def needs_forward_def
  using fold_indexed_writes' [of "\<lambda>fl. flowRate_fl fl = 0 \<or> componentGrades fl = None"
          "\<lambda>fl. copy_forward fl flowLine"
          "\<lambda>fl. fromEquipment fl = toEquipment flowLine \<and> lacks_data fl" arr]
  by simp

lemma case2_map:
  "case2 flowLine arr =
     (if is_product flowLine
      then (map (\<lambda>fl. if needs_backward flowLine fl then copy_backward fl flowLine else fl) arr,
            length (filter (needs_backward flowLine) arr))
      else (arr, 0))"
  unfolding case2_def Let_def is_product_def needs_backward_def
  using fold_indexed_writes' [of "\<lambda>fl. flowRate_fl fl = 0 \<or> componentGrades fl = None"
          "\<lambda>fl. copy_backward fl flowLine"
          "\<lambda>fl. toEquipment fl = fromEquipment flowLine \<and> lacks_data fl" arr]
  by simp

lemma fold_upt_invariant:
  assumes "Inv 0 s0"
    and "\<And>k s. k < n \<Longrightarrow> Inv k s \<Longrightarrow> Inv (Suc k) (f k s)"
  shows "Inv n (fold f [0..<n] s0)"
  using assms(2)
proof (induction n)
  case 0
  then show ?case using assms(1) by simp
next
  case (Suc n)
  have "Inv n (fold f [0..<n] s0)"
    using Suc.IH Suc.prems by simp
  then show ?case
    using Suc.prems [of n "fold f [0..<n] s0"] by simp
qed

section \<open>A pass that counts no change changes nothing\<close>

lemma length_case1 [simp]: "length (fst (case1 flowLine arr)) = length arr"
  by (simp add: case1_map)

lemma length_case2 [simp]: "length (fst (case2 flowLine arr)) = length arr"
  by (simp add: case2_map)

lemma length_case3 [simp]: "length (fst (case3 ac i flowLine arr)) = length arr"
  by (simp add: case3_def)

lemma length_case4 [simp]: "length (fst (case4 i flowLine arr)) = length arr"
  by (simp add: case4_def)

lemma length_propagate_step [simp]: "length (fst (propagate_step ac i st)) = length (fst st)"
  by (simp add: propagate_step_def Let_def)

lemma map_filter_none:
  "length (filter p xs) = 0 \<Longrightarrow> map (\<lambda>x. if p x then g x else x) xs = xs"
  by (induction xs) (auto split: if_splits)

lemma case1_unchanged: "snd (case1 flowLine arr) = 0 \<Longrightarrow> fst (case1 flowLine arr) = arr"
  by (auto simp: case1_map map_filter_none split: if_splits)

lemma case2_unchanged: "snd (case2 flowLine arr) = 0 \<Longrightarrow> fst (case2 flowLine arr) = arr"
  by (auto simp: case2_map map_filter_none split: if_splits)

lemma case3_unchanged: "snd (case3 ac i flowLine arr) = 0 \<Longrightarrow> fst (case3 ac i flowLine arr) = arr"
  by (auto simp: case3_def split: if_splits)

lemma case4_unchanged: "snd (case4 i flowLine arr) = 0 \<Longrightarrow> fst (case4 i flowLine arr) = arr"
  by (auto simp: case4_def split: if_splits)

lemma propagate_step_count:
  "snd st \<le> snd (propagate_step ac i st)
   \<and> (snd (propagate_step ac i st) = snd st \<longrightarrow> fst (propagate_step ac i st) = fst st)"
  by (auto simp: propagate_step_def Let_def case1_unchanged case2_unchanged case3_unchanged
                 case4_unchanged)

lemma propagate_pass_unchanged:
  assumes "snd (propagate_pass ac arr) = 0"
  shows "fst (propagate_pass ac arr) = arr"
proof -
  let ?n = "length arr"
  have "(\<lambda>k st. snd (arr, 0::nat) \<le> snd st \<and> (snd st = 0 \<longrightarrow> fst st = arr)) ?n
          (fold (propagate_step ac) [0..<?n] (arr, 0))"
  proof (rule fold_upt_invariant)
    show "snd (arr, 0::nat) \<le> snd (arr, 0::nat) \<and> (snd (arr, 0::nat) = 0 \<longrightarrow> fst (arr, 0::nat) = arr)"
      by simp
  next
    fix k st
    assume "snd (arr, 0::nat) \<le> snd st \<and> (snd st = 0 \<longrightarrow> fst st = arr)"
    then show "snd (arr, 0::nat) \<le> snd (propagate_step ac k st)
               \<and> (snd (propagate_step ac k st) = 0 \<longrightarrow> fst (propagate_step ac k st) = arr)"
      using propagate_step_count [of st ac k] by auto
  qed
  then show ?thesis
    using assms by (simp add: propagate_pass_def)
qed

lemma fst_case1: "fst (case1 flowLine arr) = map (forward_write flowLine) arr"
  by (cases "is_feed flowLine") (simp_all add: case1_map forward_write_def [abs_def])

lemma fst_case2: "fst (case2 flowLine arr) = map (backward_write flowLine) arr"
  by (cases "is_product flowLine") (simp_all add: case2_map backward_write_def [abs_def])

lemma propagate_step_nth:
  assumes "k < length arr" and "j < length arr"
  shows "fst (propagate_step ac k (arr, c)) ! j =
           (if j = k \<and> flowRate_fl (arr ! k) = 0
            then (arr ! k)\<lparr> flowRate_fl :=
                              estimatedFlow (arr ! k)
                                (fst (case3 ac k (arr ! k)
                                   (map (backward_write (arr ! k)) (map (forward_write (arr ! k)) arr)))),
                            solidPercent_fl := jsor (solidPercent_fl (arr ! k)) 70,
                            density_fl := jsor (density_fl (arr ! k)) 2.8 \<rparr>
            else if j = k \<and> no_component_data (arr ! k) then defaults_write ac (arr ! k)
            else backward_write (arr ! k) (forward_write (arr ! k) (arr ! j)))"
  using assms
  by (simp add: propagate_step_def Let_def fst_case1 fst_case2 case3_def case4_def
                defaults_write_def nth_list_update)

lemma sum_on_pos:
  assumes "xs \<noteq> []" and "\<forall>x \<in> set xs. 0 < f x"
  shows "0 < sum_on f xs"
proof -
  obtain y ys where xs: "xs = y # ys"
    using assms(1) by (cases xs) auto
  have "0 \<le> sum_list (map f ys)"
    using assms(2) xs by (intro sum_list_nonneg) (auto intro: less_imp_le)
  moreover have "0 < f y"
    using assms(2) xs by simp
  ultimately show ?thesis
    by (simp add: sum_on_sum_list xs add_pos_nonneg)
qed

lemma estimatedFlow_pos: "0 < estimatedFlow flowLine arr"
  unfolding estimatedFlow_def Let_def
  by (auto intro!: sum_on_pos simp: filter_empty_conv)

lemma has_flow_forward_write: "has_flow fl \<Longrightarrow> has_flow (forward_write x fl)"
  by (simp add: has_flow_def forward_write_def copy_forward_def jsor_def)

lemma has_flow_backward_write: "has_flow fl \<Longrightarrow> has_flow (backward_write x fl)"
  by (simp add: has_flow_def backward_write_def copy_backward_def jsor_def)

lemma has_flow_defaults_write: "has_flow fl \<Longrightarrow> has_flow (defaults_write ac fl)"
  by (simp add: has_flow_def defaults_write_def)

lemma propagate_step_has_flow:
  assumes "k < length arr" and "j < length arr" and "has_flow (arr ! j) \<or> j = k"
  shows "has_flow (fst (propagate_step ac k (arr, c)) ! j)"
proof (cases "j = k \<and> flowRate_fl (arr ! k) = 0")
  case True
  have "flowRate_fl (fst (propagate_step ac k (arr, c)) ! k)
          = estimatedFlow (arr ! k)
              (fst (case3 ac k (arr ! k)
                 (map (backward_write (arr ! k)) (map (forward_write (arr ! k)) arr))))"
    using True by (simp add: propagate_step_nth [OF assms(1) assms(1)])
  then have "0 < flowRate_fl (fst (propagate_step ac k (arr, c)) ! k)"
    by (simp only: estimatedFlow_pos)
  then show ?thesis
    using True by (simp add: has_flow_def)
next
  case False
  then have "has_flow (arr ! j)"
    using assms(3) by (auto simp: has_flow_def)
  then show ?thesis
    using False
    by (auto simp: propagate_step_nth [OF assms(1,2)] has_flow_forward_write
                   has_flow_backward_write has_flow_defaults_write)
qed

lemma propagate_pass_has_flow:
  "\<forall>fl \<in> set (fst (propagate_pass ac arr)). has_flow fl"
proof -
  let ?n = "length arr"
  let ?Inv = "\<lambda>k (st :: FlowLine list \<times> nat).
                length (fst st) = ?n \<and> (\<forall>j<k. has_flow (fst st ! j))"
  have "?Inv ?n (fold (propagate_step ac) [0..<?n] (arr, 0))"
  proof (rule fold_upt_invariant [where Inv = ?Inv])
    show "?Inv 0 (arr, 0)" by simp
  next
    fix k and st :: "FlowLine list \<times> nat"
    assume k: "k < ?n" and inv: "?Inv k st"
    obtain a c where st: "st = (a, c)" by (cases st)
    have len: "length a = ?n" using inv st by simp
    have "has_flow (fst (propagate_step ac k (a, c)) ! j)" if "j < Suc k" for j
      using that k inv st len propagate_step_has_flow [of k a j ac c] by (cases "j = k") auto
    then show "?Inv (Suc k) (propagate_step ac k st)"
      using len st by simp
  qed
  then show ?thesis
    by (auto simp: propagate_pass_def in_set_conv_nth)
qed

section \<open>What the writes of a step keep\<close>

lemma ends_forward_write [simp]: "ends (forward_write x fl) = ends fl"
  by (simp add: ends_def forward_write_def copy_forward_def)

lemma ends_backward_write [simp]: "ends (backward_write x fl) = ends fl"
  by (simp add: ends_def backward_write_def copy_backward_def)

lemma ends_defaults_write [simp]: "ends (defaults_write ac fl) = ends fl"
  by (simp add: ends_def defaults_write_def)

lemma is_feed_ends: "ends f = ends g \<Longrightarrow> is_feed f = is_feed g"
  by (simp add: ends_def is_feed_def)

lemma is_product_ends: "ends f = ends g \<Longrightarrow> is_product f = is_product g"
  by (simp add: ends_def is_product_def)

lemma graded_forward_write: "graded fl \<Longrightarrow> graded (forward_write x fl)"
  by (simp add: graded_def forward_write_def copy_forward_def)

lemma graded_backward_write: "graded fl \<Longrightarrow> graded (backward_write x fl)"
  by (simp add: graded_def backward_write_def copy_backward_def)

lemma graded_defaults_write [simp]: "graded (defaults_write ac fl)"
  by (simp add: graded_def defaults_write_def)

lemma forward_write_grades:
  "is_feed x \<Longrightarrow> fromEquipment fl = toEquipment x \<Longrightarrow> graded (forward_write x fl)"
  by (auto simp: graded_def forward_write_def copy_forward_def needs_forward_def lacks_data_def
           split: option.splits)

lemma backward_write_grades:
  "is_product x \<Longrightarrow> toEquipment fl = fromEquipment x \<Longrightarrow> graded (backward_write x fl)"
  by (auto simp: graded_def backward_write_def copy_backward_def needs_backward_def lacks_data_def
           split: option.splits)

lemma forward_write_same:
  "has_flow fl \<Longrightarrow> graded fl \<Longrightarrow> forward_write x fl = fl"
  by (auto simp: forward_write_def needs_forward_def has_flow_def graded_def)

lemma backward_write_same:
  "has_flow fl \<Longrightarrow> graded fl \<Longrightarrow> backward_write x fl = fl"
  by (auto simp: backward_write_def needs_backward_def has_flow_def graded_def)

lemma forward_write_unrelated:
  "\<not> (is_feed x \<and> fromEquipment fl = toEquipment x) \<Longrightarrow> forward_write x fl = fl"
  by (auto simp: forward_write_def needs_forward_def)

lemma backward_write_unrelated:
  "\<not> (is_product x \<and> toEquipment fl = fromEquipment x) \<Longrightarrow> backward_write x fl = fl"
  by (auto simp: backward_write_def needs_backward_def)

lemma component_data_forward_write:
  "has_flow fl \<Longrightarrow> \<not> no_component_data fl \<Longrightarrow> \<not> no_component_data (forward_write x fl)"
  by (auto simp: forward_write_def needs_forward_def has_flow_def no_component_data_def
                 copy_forward_def components_or_def split: option.splits)

lemma component_data_backward_write:
  "has_flow fl \<Longrightarrow> \<not> no_component_data fl \<Longrightarrow> \<not> no_component_data (backward_write x fl)"
  by (auto simp: backward_write_def needs_backward_def has_flow_def no_component_data_def
                 copy_backward_def components_or_def split: option.splits)

lemma settled_graded: "settled ac fl \<Longrightarrow> no_component_data fl \<Longrightarrow> graded fl"
proof -
  assume "settled ac fl" "no_component_data fl"
  then have "defaults_write ac fl = fl" by (simp add: settled_def)
  then have "graded fl = graded (defaults_write ac fl)" by simp
  then show "graded fl" by simp
qed

lemma settled_forward_write:
  assumes "has_flow fl" and "settled ac fl"
  shows "settled ac (forward_write x fl)"
proof (cases "no_component_data fl")
  case True
  then show ?thesis
    using assms settled_graded forward_write_same by fastforce
next
  case False
  then show ?thesis
    using component_data_forward_write [OF assms(1)] by (simp add: settled_def)
qed

lemma settled_backward_write:
  assumes "has_flow fl" and "settled ac fl"
  shows "settled ac (backward_write x fl)"
proof (cases "no_component_data fl")
  case True
  then show ?thesis
    using assms settled_graded backward_write_same by fastforce
next
  case False
  then show ?thesis
    using component_data_backward_write [OF assms(1)] by (simp add: settled_def)
qed

lemma settled_defaults_write [simp]: "settled ac (defaults_write ac fl)"
  by (simp add: settled_def defaults_write_def)

section \<open>A stable array is a fixed point of a pass\<close>

lemma stable_step:
  assumes "stable_state ac arr" and "k < length arr"
  shows "fst (propagate_step ac k (arr, c)) = arr"
proof (rule nth_equalityI)
  show "length (fst (propagate_step ac k (arr, c))) = length arr"
    by simp
next
  fix j
  assume "j < length (fst (propagate_step ac k (arr, c)))"
  then have j: "j < length arr" by simp
  let ?x = "arr ! k"
  have xin: "?x \<in> set arr" and jin: "arr ! j \<in> set arr"
    using assms(2) j by simp_all
  have flow: "flowRate_fl ?x \<noteq> 0"
    using assms(1) xin by (auto simp: stable_state_def has_flow_def)
  have dflt: "no_component_data ?x \<Longrightarrow> defaults_write ac ?x = ?x"
    using assms(1) xin by (auto simp: stable_state_def settled_def)
  have hf: "has_flow (arr ! j)"
    using assms(1) jin by (auto simp: stable_state_def)
  have fw: "forward_write ?x (arr ! j) = arr ! j"
  proof (cases "is_feed ?x \<and> fromEquipment (arr ! j) = toEquipment ?x")
    case True
    then have "graded (arr ! j)"
      using assms(1) xin jin unfolding stable_state_def by blast
    then show ?thesis using hf by (rule forward_write_same [rotated])
  next
    case False
    then show ?thesis by (rule forward_write_unrelated)
  qed
  have bw: "backward_write ?x (arr ! j) = arr ! j"
  proof (cases "is_product ?x \<and> toEquipment (arr ! j) = fromEquipment ?x")
    case True
    then have "graded (arr ! j)"
      using assms(1) xin jin unfolding stable_state_def by blast
    then show ?thesis using hf by (rule backward_write_same [rotated])
  next
    case False
    then show ?thesis by (rule backward_write_unrelated)
  qed
  show "fst (propagate_step ac k (arr, c)) ! j = arr ! j"
    using flow dflt by (auto simp: propagate_step_nth [OF assms(2) j] fw bw)
qed

lemma stable_pass:
  assumes "stable_state ac arr"
  shows "fst (propagate_pass ac arr) = arr"
proof -
  let ?n = "length arr"
  let ?Inv = "\<lambda>(k :: nat) (st :: FlowLine list \<times> nat). fst st = arr"
  have "?Inv ?n (fold (propagate_step ac) [0..<?n] (arr, 0))"
  proof (rule fold_upt_invariant [where Inv = ?Inv])
    show "?Inv 0 (arr, 0)" by simp
  next
    fix k and st :: "FlowLine list \<times> nat"
    assume k: "k < ?n" and inv: "?Inv k st"
    obtain c where "st = (arr, c)" using inv by (cases st) auto
    then show "?Inv (Suc k) (propagate_step ac k st)"
      using stable_step [OF assms k] by simp
  qed
  then show ?thesis
    by (simp add: propagate_pass_def)
qed

section \<open>A pass over lines that all have a flow rate ends stable\<close>

lemma flowing_step_nth:
  assumes "k < length arr" and "j < length arr" and "has_flow (arr ! k)"
  shows "fst (propagate_step ac k (arr, c)) ! j =
           (if j = k \<and> no_component_data (arr ! k) then defaults_write ac (arr ! k)
            else backward_write (arr ! k) (forward_write (arr ! k) (arr ! j)))"
  using assms(3) by (simp add: propagate_step_nth [OF assms(1,2)] has_flow_def)

lemma flowing_step_ends:
  assumes "k < length arr" and "j < length arr" and "has_flow (arr ! k)"
  shows "ends (fst (propagate_step ac k (arr, c)) ! j) = ends (arr ! j)"
  by (auto simp: flowing_step_nth [OF assms])

lemma flowing_step_graded:
  assumes "k < length arr" and "j < length arr" and "has_flow (arr ! k)" and "graded (arr ! j)"
  shows "graded (fst (propagate_step ac k (arr, c)) ! j)"
  using assms(4)
  by (auto simp: flowing_step_nth [OF assms(1,2,3)] graded_forward_write graded_backward_write)

lemma flowing_step_settled:
  assumes "k < length arr" and "j < length arr" and "has_flow (arr ! k)"
    and "has_flow (arr ! j)" and "settled ac (arr ! j) \<or> j = k"
  shows "settled ac (fst (propagate_step ac k (arr, c)) ! j)"
proof (cases "j = k \<and> no_component_data (arr ! k)")
  case True
  then show ?thesis
    by (simp add: flowing_step_nth [OF assms(1) assms(1) assms(3)])
next
  case False
  have s: "settled ac (arr ! j)"
    using assms(5) False by (auto simp: settled_def)
  have "settled ac (backward_write (arr ! k) (forward_write (arr ! k) (arr ! j)))"
    using s assms(4)
    by (intro settled_backward_write settled_forward_write has_flow_forward_write)
  then show ?thesis
    using False by (auto simp: flowing_step_nth [OF assms(1,2,3)])
qed

lemma flowing_step_feeds:
  assumes "k < length arr" and "j < length arr" and "has_flow (arr ! k)"
    and "is_feed (arr ! k)" and "fromEquipment (arr ! j) = toEquipment (arr ! k)"
  shows "graded (fst (propagate_step ac k (arr, c)) ! j)"
  using assms(4,5)
  by (auto simp: flowing_step_nth [OF assms(1,2,3)] forward_write_grades graded_backward_write)

lemma flowing_step_products:
  assumes "k < length arr" and "j < length arr" and "has_flow (arr ! k)"
    and "is_product (arr ! k)" and "toEquipment (arr ! j) = fromEquipment (arr ! k)"
  shows "graded (fst (propagate_step ac k (arr, c)) ! j)"
proof -
  have "ends (forward_write (arr ! k) (arr ! j)) = ends (arr ! j)"
    by simp
  then have "toEquipment (forward_write (arr ! k) (arr ! j)) = fromEquipment (arr ! k)"
    using assms(5) by (simp add: ends_def)
  then show ?thesis
    using assms(4) by (auto simp: flowing_step_nth [OF assms(1,2,3)] backward_write_grades)
qed

lemma pass_invariant_step:
  assumes inv: "pass_invariant ac y k arr" and k: "k < length y"
  shows "pass_invariant ac y (Suc k) (fst (propagate_step ac k (arr, c)))"
proof -
  let ?new = "fst (propagate_step ac k (arr, c))"
  have len: "length arr = length y"
    and base: "\<And>j. j < length y \<Longrightarrow> ends (arr ! j) = ends (y ! j) \<and> has_flow (arr ! j)"
    and set: "\<And>j. j < k \<Longrightarrow> settled ac (arr ! j)"
    and feeds: "\<And>i j. i < k \<Longrightarrow> j < length y \<Longrightarrow> is_feed (y ! i) \<Longrightarrow>
                  fst (ends (y ! j)) = snd (ends (y ! i)) \<Longrightarrow> graded (arr ! j)"
    and prods: "\<And>i j. i < k \<Longrightarrow> j < length y \<Longrightarrow> is_product (y ! i) \<Longrightarrow>
                  snd (ends (y ! j)) = fst (ends (y ! i)) \<Longrightarrow> graded (arr ! j)"
    using inv unfolding pass_invariant_def by blast+
  have ka: "k < length arr" using k len by simp
  have hk: "has_flow (arr ! k)" using base k by simp
  have ek: "ends (arr ! k) = ends (y ! k)" using base k by simp
  have 1: "length ?new = length y"
    using len by simp
  have 2: "ends (?new ! j) = ends (y ! j) \<and> has_flow (?new ! j)" if "j < length y" for j
    using that base [OF that] len ka hk
      flowing_step_ends [of k arr j ac c] propagate_step_has_flow [of k arr j ac c]
    by simp
  have 3: "settled ac (?new ! j)" if "j < Suc k" for j
  proof -
    have "j < length arr" using that k len by simp
    moreover have "has_flow (arr ! j)" using that k base by simp
    moreover have "settled ac (arr ! j) \<or> j = k" using that set by (cases "j = k") auto
    ultimately show ?thesis
      using flowing_step_settled [OF ka _ hk] by blast
  qed
  have 4: "graded (?new ! j)"
    if "i < Suc k" "j < length y" "is_feed (y ! i)" "fst (ends (y ! j)) = snd (ends (y ! i))" for i j
  proof (cases "i = k")
    case True
    have ja: "j < length arr" using that(2) len by simp
    have "is_feed (arr ! k)"
      using that(3) True is_feed_ends [OF ek] by simp
    moreover have "fromEquipment (arr ! j) = toEquipment (arr ! k)"
      using that(4) True base [OF that(2)] ek by (simp add: ends_def)
    ultimately show ?thesis
      using flowing_step_feeds [OF ka ja hk] by blast
  next
    case False
    then have "graded (arr ! j)"
      using that feeds [of i j] by simp
    then show ?thesis
      using flowing_step_graded [OF ka _ hk] that(2) len by simp
  qed
  have 5: "graded (?new ! j)"
    if "i < Suc k" "j < length y" "is_product (y ! i)" "snd (ends (y ! j)) = fst (ends (y ! i))" for i j
  proof (cases "i = k")
    case True
    have ja: "j < length arr" using that(2) len by simp
    have "is_product (arr ! k)"
      using that(3) True is_product_ends [OF ek] by simp
    moreover have "toEquipment (arr ! j) = fromEquipment (arr ! k)"
      using that(4) True base [OF that(2)] ek by (simp add: ends_def)
    ultimately show ?thesis
      using flowing_step_products [OF ka ja hk] by blast
  next
    case False
    then have "graded (arr ! j)"
      using that prods [of i j] by simp
    then show ?thesis
      using flowing_step_graded [OF ka _ hk] that(2) len by simp
  qed
  show ?thesis
    unfolding pass_invariant_def using 1 2 3 4 5 by blast
qed

lemma flowing_pass_stable:
  assumes "\<forall>fl \<in> set y. has_flow fl"
  shows "stable_state ac (fst (propagate_pass ac y))"
proof -
  let ?n = "length y"
  let ?Inv = "\<lambda>k (st :: FlowLine list \<times> nat). pass_invariant ac y k (fst st)"
  have "?Inv ?n (fold (propagate_step ac) [0..<?n] (y, 0))"
  proof (rule fold_upt_invariant [where Inv = ?Inv])
    show "?Inv 0 (y, 0)"
      using assms by (simp add: pass_invariant_def)
  next
    fix k and st :: "FlowLine list \<times> nat"
    assume "k < ?n" and "?Inv k st"
    then show "?Inv (Suc k) (propagate_step ac k st)"
      using pass_invariant_step [of ac y k "fst st" "snd st"] by simp
  qed
  then have inv: "pass_invariant ac y ?n (fst (propagate_pass ac y))"
    by (simp add: propagate_pass_def)
  let ?z = "fst (propagate_pass ac y)"
  have len: "length ?z = ?n"
    and base: "\<And>j. j < ?n \<Longrightarrow> ends (?z ! j) = ends (y ! j) \<and> has_flow (?z ! j)"
    and set: "\<And>j. j < ?n \<Longrightarrow> settled ac (?z ! j)"
    and feeds: "\<And>i j. i < ?n \<Longrightarrow> j < ?n \<Longrightarrow> is_feed (y ! i) \<Longrightarrow>
                  fst (ends (y ! j)) = snd (ends (y ! i)) \<Longrightarrow> graded (?z ! j)"
    and prods: "\<And>i j. i < ?n \<Longrightarrow> j < ?n \<Longrightarrow> is_product (y ! i) \<Longrightarrow>
                  snd (ends (y ! j)) = fst (ends (y ! i)) \<Longrightarrow> graded (?z ! j)"
    using inv unfolding pass_invariant_def by blast+
  have a: "has_flow fl \<and> settled ac fl" if "fl \<in> set ?z" for fl
    using that base set len by (auto simp: in_set_conv_nth)
  have b: "graded g"
    if mf: "f \<in> set ?z" and mg: "g \<in> set ?z" and fd: "is_feed f"
      and eq: "fromEquipment g = toEquipment f" for f g
  proof -
    obtain i j where i: "i < ?n" "?z ! i = f" and j: "j < ?n" "?z ! j = g"
      using mf mg len by (auto simp: in_set_conv_nth)
    have "is_feed (y ! i)"
      using fd i base [OF i(1)] is_feed_ends by blast
    moreover have "fst (ends (y ! j)) = snd (ends (y ! i))"
      using eq i j base [OF i(1)] base [OF j(1)] by (simp add: ends_def)
    ultimately show ?thesis
      using feeds [OF i(1) j(1)] j(2) by simp
  qed
  have c: "graded g"
    if mf: "f \<in> set ?z" and mg: "g \<in> set ?z" and pd: "is_product f"
      and eq: "toEquipment g = fromEquipment f" for f g
  proof -
    obtain i j where i: "i < ?n" "?z ! i = f" and j: "j < ?n" "?z ! j = g"
      using mf mg len by (auto simp: in_set_conv_nth)
    have "is_product (y ! i)"
      using pd i base [OF i(1)] is_product_ends by blast
    moreover have "snd (ends (y ! j)) = fst (ends (y ! i))"
      using eq i j base [OF i(1)] base [OF j(1)] by (simp add: ends_def)
    ultimately show ?thesis
      using prods [OF i(1) j(1)] j(2) by simp
  qed
  show ?thesis
    unfolding stable_state_def using a b c by blast
qed

lemma second_pass_stable: "stable_state ac (fst (propagate_pass ac (fst (propagate_pass ac x))))"
  by (rule flowing_pass_stable) (rule propagate_pass_has_flow)

section \<open>The loop of passes\<close>

lemma propagate_loop_fixed:
  "fst (propagate_pass ac y) = y \<Longrightarrow> propagate_loop ac k y = y"
proof (induction ac k y rule: propagate_loop.induct)
  case (1 ac k y)
  show ?case
  proof (cases "k < 10")
    case False
    then show ?thesis by (subst propagate_loop.simps) simp
  next
    case True
    show ?thesis
    proof (cases "snd (propagate_pass ac y) = 0")
      case zero: True
      then show ?thesis
        using True "1.prems" by (subst propagate_loop.simps) (simp add: Let_def)
    next
      case nonzero: False
      have "propagate_loop ac (k + 1) (fst (propagate_pass ac y)) = fst (propagate_pass ac y)"
        using "1.IH" [OF True refl nonzero] "1.prems" by simp
      then show ?thesis
        using True nonzero "1.prems" by (subst propagate_loop.simps) (simp add: Let_def)
    qed
  qed
qed

lemma propagate_loop_reaches_fixed:
  assumes "1 \<le> k \<longrightarrow> (\<exists>x0. x = fst (propagate_pass ac x0))"
    and "2 \<le> k \<longrightarrow> fst (propagate_pass ac x) = x"
  shows "fst (propagate_pass ac (propagate_loop ac k x)) = propagate_loop ac k x"
  using assms
proof (induction ac k x rule: propagate_loop.induct)
  case (1 ac k x)
  show ?case
  proof (cases "k < 10")
    case False
    then have "propagate_loop ac k x = x"
      by (subst propagate_loop.simps) simp
    then show ?thesis
      using False "1.prems"(2) by simp
  next
    case True
    let ?r = "propagate_pass ac x"
    show ?thesis
    proof (cases "snd ?r = 0")
      case zero: True
      have "propagate_loop ac k x = fst ?r"
        using True zero by (subst propagate_loop.simps) (simp add: Let_def)
      then show ?thesis
        using propagate_pass_unchanged [OF zero] by simp
    next
      case nonzero: False
      have eq: "propagate_loop ac k x = propagate_loop ac (k + 1) (fst ?r)"
        using True nonzero by (subst propagate_loop.simps) (simp add: Let_def)
      have a: "1 \<le> k + 1 \<longrightarrow> (\<exists>x0. fst ?r = fst (propagate_pass ac x0))"
        by blast
      have b: "2 \<le> k + 1 \<longrightarrow> fst (propagate_pass ac (fst ?r)) = fst ?r"
      proof
        assume "2 \<le> k + 1"
        then have "1 \<le> k" by simp
        then obtain x0 where x0: "x = fst (propagate_pass ac x0)"
          using "1.prems"(1) by blast
        have "stable_state ac (fst ?r)"
          unfolding x0 by (rule second_pass_stable)
        then show "fst (propagate_pass ac (fst ?r)) = fst ?r"
          by (rule stable_pass)
      qed
      show ?thesis
        unfolding eq using "1.IH" [OF True refl nonzero a b] .
    qed
  qed
qed

section \<open>Propagation is idempotent\<close>

text \<open>
  Claim C4. For every array of flow lines and every list of mineral components,
  \<open>propagateStreamData\<close> applied to its own output returns that output unchanged. The
  first pass gives every line a flow rate, the second one leaves the array in a stable
  state, so that the output of the first application, whether the loop stopped on a pass
  without changes or at its cap of ten passes, is a fixed point of a pass.
\<close>

theorem propagateStreamData_idempotent:
  "propagateStreamData (propagateStreamData flowLines mineralComponents) mineralComponents
     = propagateStreamData flowLines mineralComponents"
proof -
  let ?ac = "filter isActive mineralComponents"
  have "fst (propagate_pass ?ac (propagate_loop ?ac 0 flowLines)) = propagate_loop ?ac 0 flowLines"
    by (rule propagate_loop_reaches_fixed) simp_all
  then show ?thesis
    unfolding propagateStreamData_def by (rule propagate_loop_fixed)
qed

end
